theory Spec2Isabelle
  imports Complex_Main "HOL-Library.AList"
begin

section \<open>JavaScript values shared by the modules\<close>

text \<open>
  Identifiers of nodes and items are JavaScript strings or numbers. Strict equality
  (\<^verbatim>\<open>===\<close>) and \<^verbatim>\<open>Set.has\<close> agree with HOL equality on them. An identifier is
  \<^emph>\<open>truthy\<close> unless it is the empty string or the number 0.
\<close>

datatype js_id = StrId string | NumId int

fun truthy :: "js_id \<Rightarrow> bool" where
  "truthy (StrId s) = (s \<noteq> [])"
| "truthy (NumId n) = (n \<noteq> 0)"

text \<open>An optional field: absent (\<^verbatim>\<open>undefined\<close>, \<^verbatim>\<open>null\<close>) or present.\<close>

fun truthyId :: "js_id option \<Rightarrow> bool" where
  "truthyId None = False"
| "truthyId (Some i) = truthy i"

fun truthyString :: "string option \<Rightarrow> bool" where
  "truthyString None = False"
| "truthyString (Some s) = (s \<noteq> [])"

fun truthyNumber :: "real option \<Rightarrow> bool" where
  "truthyNumber None = False"
| "truthyNumber (Some x) = (x \<noteq> 0)"

text \<open>A thrown exception, as a value.\<close>

datatype js_error = Error string | TypeError string

text \<open>The browser console: the level and the text of each message, oldest first.\<close>

datatype log_level = Log | Warn | Err

type_synonym console = "(log_level \<times> string) list"

text \<open>
  A call into a third-party library (vis.js) either returns or throws. The libraries are
  not part of the repository, so each operation below takes the outcome of the library
  calls it makes as an argument.
\<close>

datatype lib_outcome = Returns | Throws

section \<open>NetworkGraph (the d3 toolkit class)\<close>

subsection \<open>loadData\<close>

text \<open>
  A node and a link as the host passes them in \<^verbatim>\<open>data.nodes\<close> and \<^verbatim>\<open>data.links\<close>; only the
  fields that \<^verbatim>\<open>loadData\<close> reads or writes are kept.
\<close>

record node =
  n_id :: "js_id option"
  n_color :: "string option"
  n_size :: "real option"
  n_status :: "string option"
  n_riskScore :: "real option"

text \<open>
  An end of a link (\<^verbatim>\<open>link.source\<close>, \<^verbatim>\<open>link.target\<close>): the field is missing, is \<^verbatim>\<open>null\<close>, holds
  the id of a node, or holds a node object with the given id (what d3 puts there).
\<close>

datatype link_end = EndUndefined | EndNull | EndId js_id | EndNode js_id

record link_data =
  l_source :: link_end
  l_target :: link_end
  l_color :: "string option"
  l_width :: "real option"

text \<open>\<^verbatim>\<open>!link.source\<close>: true for a missing or \<^verbatim>\<open>null\<close> end and for a falsy id; an object is truthy.\<close>

fun falsyEnd :: "link_end \<Rightarrow> bool" where
  "falsyEnd EndUndefined = True"
| "falsyEnd EndNull = True"
| "falsyEnd (EndId i) = (\<not> truthy i)"
| "falsyEnd (EndNode i) = False"

record graph_data =
  d_nodes :: "node list option"
  d_links :: "link_data list option"

record network_graph =
  g_nodeRadius :: real
  g_nodes :: "node list"
  g_links :: "link_data list"

text \<open>\<^verbatim>\<open>node.riskScore || 0\<close>\<close>

definition riskScoreOf :: "node \<Rightarrow> real" where
  "riskScoreOf n = (case n_riskScore n of None \<Rightarrow> 0 | Some r \<Rightarrow> r)"

definition getNodeColor :: "node \<Rightarrow> string" where
  "getNodeColor n =
     (if n_status n = Some ''Sanctioned'' then ''#e74c3c''
      else if n_status n = Some ''Flagged'' then ''#e67e22''
      else if riskScoreOf n \<ge> 8 then ''#e74c3c''
      else if riskScoreOf n \<ge> 6 then ''#f39c12''
      else if riskScoreOf n \<ge> 4 then ''#3498db''
      else ''#2ecc71'')"

definition getNodeSize :: "network_graph \<Rightarrow> node \<Rightarrow> real" where
  "getNodeSize g n = g_nodeRadius g + riskScoreOf n * 2"

text \<open>
  The body of \<^verbatim>\<open>this.nodes.forEach\<close>. A node without a truthy id gets
  \<^verbatim>\<open>Math.random().toString(36).substr(2, 9)\<close>; the random strings are supplied by
  \<open>rnd\<close>, the \<open>k\<close>-th draw being \<open>rnd k\<close>.
\<close>

fun processNodes :: "network_graph \<Rightarrow> (nat \<Rightarrow> string) \<Rightarrow> nat \<Rightarrow> node list \<Rightarrow> node list" where
  "processNodes g rnd k [] = []"
| "processNodes g rnd k (n # ns) =
     (let fresh = \<not> truthyId (n_id n);
          n1 = (if fresh then n\<lparr>n_id := Some (StrId (rnd k))\<rparr> else n);
          n2 = (if \<not> truthyString (n_color n1) then n1\<lparr>n_color := Some (getNodeColor n1)\<rparr> else n1);
          n3 = (if \<not> truthyNumber (n_size n2) then n2\<lparr>n_size := Some (getNodeSize g n2)\<rparr> else n2)
      in n3 # processNodes g rnd (if fresh then Suc k else k) ns)"

text \<open>
  The body of \<^verbatim>\<open>this.links.forEach\<close>: a warning when source or target is missing, then the
  defaults for colour and width. The link stays in the array in every case.
\<close>

definition processLink :: "link_data \<Rightarrow> console \<times> link_data" where
  "processLink l =
     (let warning = (if falsyEnd (l_source l) \<or> falsyEnd (l_target l)
                     then [(Warn, ''Link missing source or target'')] else []);
          l1 = (if \<not> truthyString (l_color l) then l\<lparr>l_color := Some ''#999''\<rparr> else l);
          l2 = (if \<not> truthyNumber (l_width l1) then l1\<lparr>l_width := Some 2\<rparr> else l1)
      in (warning, l2))"

text \<open>
  \<^verbatim>\<open>loadData\<close> ends with \<^verbatim>\<open>this.render()\<close>, whose first statement builds
  \<^verbatim>\<open>d3.forceSimulation(this.nodes).force('link', d3.forceLink(this.links).id(d => d.id)...)\<close>.
  d3 is not part of the repository; the file names d3 v7 as its dependency, and the link
  force of d3 v7 initialises as follows when it is added to the simulation. It maps the id
  of every node to the node, and then for each link in turn:
  \<^verbatim>\<open>if (typeof link.source !== "object") link.source = find(nodeById, link.source);\<close>, the
  same for \<^verbatim>\<open>link.target\<close>, and then it reads \<^verbatim>\<open>link.source.index\<close> and
  \<^verbatim>\<open>link.target.index\<close>. \<^verbatim>\<open>find\<close> throws \<^verbatim>\<open>new Error("node not found: " + nodeId)\<close> when
  the map has no node for the id. A \<^verbatim>\<open>null\<close> end has type \<^verbatim>\<open>"object"\<close> and is left as it is,
  so that reading its \<^verbatim>\<open>index\<close> throws a \<^verbatim>\<open>TypeError\<close>.
\<close>

datatype load_error = NodeNotFound "js_id option" | NullEndRead

text \<open>
  \<^verbatim>\<open>find(nodeById, end)\<close> for an end that is not an object. Every node has an id when
  \<^verbatim>\<open>render()\<close> runs (the first loop of \<^verbatim>\<open>loadData\<close> has given one to each node without), so
  a missing end, which is looked up as \<^verbatim>\<open>undefined\<close>, finds no node.
\<close>

fun resolveEnd :: "node list \<Rightarrow> link_end \<Rightarrow> load_error + link_end" where
  "resolveEnd ns EndUndefined = Inl (NodeNotFound None)"
| "resolveEnd ns EndNull = Inr EndNull"
| "resolveEnd ns (EndId i) =
     (if Some i \<in> set (map n_id ns) then Inr (EndNode i) else Inl (NodeNotFound (Some i)))"
| "resolveEnd ns (EndNode i) = Inr (EndNode i)"

text \<open>
  The loop of the link force over the links. It stops at the first exception: the links
  before are resolved, the failing link may have its source resolved, the links after are
  untouched.
\<close>

fun resolveLinks :: "node list \<Rightarrow> link_data list \<Rightarrow> load_error option \<times> link_data list" where
  "resolveLinks ns [] = (None, [])"
| "resolveLinks ns (l # ls) =
     (case resolveEnd ns (l_source l) of
        Inl e \<Rightarrow> (Some e, l # ls)
      | Inr s \<Rightarrow>
          (case resolveEnd ns (l_target l) of
             Inl e \<Rightarrow> (Some e, l\<lparr>l_source := s\<rparr> # ls)
           | Inr t \<Rightarrow>
               if s = EndNull \<or> t = EndNull
               then (Some NullEndRead, l\<lparr>l_source := s, l_target := t\<rparr> # ls)
               else (case resolveLinks ns ls of
                       (r, ls') \<Rightarrow> (r, l\<lparr>l_source := s, l_target := t\<rparr> # ls'))))"

text \<open>
  \<^verbatim>\<open>loadData(data)\<close>: \<^verbatim>\<open>this.nodes = data.nodes || []; this.links = data.links || [];\<close>
  (\<open>dataNodes\<close>, \<open>dataLinks\<close>), the two loops with what they print, and \<^verbatim>\<open>this.render()\<close>. There is no \<^verbatim>\<open>try\<close> in
  \<^verbatim>\<open>loadData\<close> or \<^verbatim>\<open>render\<close>: an exception of the link force leaves the method, with
  \<^verbatim>\<open>this.nodes\<close> and \<^verbatim>\<open>this.links\<close> already assigned. The remaining calls of \<^verbatim>\<open>render()\<close>
  (the other forces and the drawing) are taken to return.
\<close>

definition dataNodes :: "graph_data \<Rightarrow> node list" where
  "dataNodes data = (case d_nodes data of None \<Rightarrow> [] | Some xs \<Rightarrow> xs)"

definition dataLinks :: "graph_data \<Rightarrow> link_data list" where
  "dataLinks data = (case d_links data of None \<Rightarrow> [] | Some xs \<Rightarrow> xs)"

definition NetworkGraph_loadData ::
  "(nat \<Rightarrow> string) \<Rightarrow> graph_data \<Rightarrow> network_graph
     \<Rightarrow> (load_error + unit) \<times> network_graph \<times> console" where
  "NetworkGraph_loadData rnd data g =
     (let ns = dataNodes data;
          ls = dataLinks data;
          nodes' = processNodes g rnd 0 ns;
          processed = map processLink ls;
          rendered = resolveLinks nodes' (map snd processed)
      in ((case fst rendered of None \<Rightarrow> Inr () | Some e \<Rightarrow> Inl e),
          g\<lparr>g_nodes := nodes', g_links := snd rendered\<rparr>,
          concat (map fst processed)))"

text \<open>
  An end of a link resolves when it is the id of one of the nodes or already a node object;
  a link is dangling when its source or its target does not resolve.
\<close>

fun resolves :: "node list \<Rightarrow> link_end \<Rightarrow> bool" where
  "resolves ns (EndId i) = (Some i \<in> set (map n_id ns))"
| "resolves ns (EndNode i) = True"
| "resolves ns EndUndefined = False"
| "resolves ns EndNull = False"

definition dangling :: "node list \<Rightarrow> link_data \<Rightarrow> bool" where
  "dangling ns l \<longleftrightarrow> \<not> resolves ns (l_source l) \<or> \<not> resolves ns (l_target l)"


definition sameEnd :: "link_end \<Rightarrow> link_end \<Rightarrow> bool" where
  "sameEnd e e' \<longleftrightarrow> e' = e \<or> (\<exists>i. e = EndId i \<and> e' = EndNode i)"

definition linkLoaded :: "link_data \<Rightarrow> link_data \<Rightarrow> bool" where
  "linkLoaded l l' \<longleftrightarrow>
     sameEnd (l_source l) (l_source l') \<and> sameEnd (l_target l) (l_target l') \<and>
     l_color l' = (if truthyString (l_color l) then l_color l else Some ''#999'') \<and>
     l_width l' = (if truthyNumber (l_width l) then l_width l else Some 2)"

subsection \<open>findShortestPath\<close>

text \<open>
  \<^verbatim>\<open>findShortestPath\<close> reads \<^verbatim>\<open>link.source.id\<close> and \<^verbatim>\<open>link.target.id\<close>: it runs on the links
  as \<^verbatim>\<open>render()\<close> leaves them, where d3's link force has replaced the two ids of each link by
  the node objects they name. A link is therefore kept as the ids of its two node objects.
\<close>

record link =
  source_id :: js_id
  target_id :: js_id

text \<open>
  The body of \<^verbatim>\<open>this.links.forEach\<close> inside the search, for the path taken from the queue and
  its last node \<open>current\<close>; the state is the set \<^verbatim>\<open>visited\<close> and the queue.
\<close>

definition visitLink ::
  "js_id \<Rightarrow> js_id list \<Rightarrow> link \<Rightarrow> js_id set \<times> js_id list list \<Rightarrow> js_id set \<times> js_id list list" where
  "visitLink current path l st =
     (let visited = fst st; queue = snd st;
          neighbor =
            (if source_id l = current \<and> target_id l \<notin> visited then Some (target_id l)
             else if target_id l = current \<and> source_id l \<notin> visited then Some (source_id l)
             else None)
      in case neighbor of
           None \<Rightarrow> (visited, queue)
         | Some n \<Rightarrow>
             if truthy n then (insert n visited, queue @ [path @ [n]]) else (visited, queue))"

definition linkIds :: "link list \<Rightarrow> js_id set" where
  "linkIds ls = source_id ` set ls \<union> target_id ` set ls"

text \<open>
  The \<^verbatim>\<open>while (queue.length > 0)\<close> loop; \<open>None\<close> is the \<^verbatim>\<open>return null\<close> after it. Every path
  the search puts in the queue is non-empty. For an empty one \<^verbatim>\<open>path[path.length - 1]\<close> is
  \<^verbatim>\<open>undefined\<close>, which equals neither the target nor the id of a node, so the iteration
  would only drop it.
\<close>

function bfs :: "link list \<Rightarrow> js_id \<Rightarrow> js_id set \<Rightarrow> js_id list list \<Rightarrow> js_id list option" where
  "bfs links targetId visited [] = None"
| "bfs links targetId visited (path # queue) =
     (if path = [] then bfs links targetId visited queue
      else if last path = targetId then Some path
      else bfs links targetId
             (fst (fold (visitLink (last path) path) links (visited, queue)))
             (snd (fold (visitLink (last path) path) links (visited, queue))))"
  by pat_completeness auto
termination
proof (relation "measure (\<lambda>(links, t, visited, queue). card (linkIds links - visited) + length queue)",
    goal_cases)
  case 1
  show ?case by simp
next
  case (2 links targetId visited path queue)
  show ?case by simp
next
  case (3 links targetId visited path queue)
  have step: "card (linkIds links - fst (fold (visitLink c p) ls (v, q)))
        + length (snd (fold (visitLink c p) ls (v, q)))
      = card (linkIds links - v) + length q"
    if "set ls \<subseteq> set links" for c p ls v q
    using that
  proof (induction ls arbitrary: v q)
    case Nil
    show ?case by simp
  next
    case (Cons l ls)
    have fin: "finite (linkIds links - v)" by (simp add: linkIds_def)
    have mem: "source_id l \<in> linkIds links" "target_id l \<in> linkIds links"
      using Cons.prems by (auto simp: linkIds_def)
    have one: "card (linkIds links - fst (visitLink c p l (v, q)))
        + length (snd (visitLink c p l (v, q))) = card (linkIds links - v) + length q"
    proof -
      have ins: "card (linkIds links - insert n v) + Suc (length q) = card (linkIds links - v) + length q"
        if "n \<in> linkIds links" "n \<notin> v" for n
      proof -
        have "linkIds links - insert n v = (linkIds links - v) - {n}" by auto
        moreover have "n \<in> linkIds links - v" using that by simp
        ultimately have "card (linkIds links - insert n v) = card (linkIds links - v) - 1"
          using fin by simp
        moreover have "card (linkIds links - v) > 0"
          using fin \<open>n \<in> linkIds links - v\<close> card_gt_0_iff by blast
        ultimately show ?thesis by simp
      qed
      show ?thesis
        using ins mem by (auto simp: visitLink_def Let_def)
    qed
    obtain v1 q1 where vq: "visitLink c p l (v, q) = (v1, q1)" by (cases "visitLink c p l (v, q)")
    have "set ls \<subseteq> set links" using Cons.prems by simp
    from Cons.IH[OF this, of v1 q1] one vq show ?case by simp
  qed
  show ?case using step[of links "last path" path visited queue] by (simp add: case_prod_beta)
qed

text \<open>
  \<^verbatim>\<open>findShortestPath(sourceId, targetId)\<close>: the queue starts as \<^verbatim>\<open>[[sourceId]]\<close>, the visited
  set as \<^verbatim>\<open>{sourceId}\<close>.
\<close>

definition findShortestPath :: "link list \<Rightarrow> js_id \<Rightarrow> js_id \<Rightarrow> js_id list option" where
  "findShortestPath links sourceId targetId = bfs links targetId {sourceId} [[sourceId]]"

text \<open>
  The wrapper of criminalNetworkIntelligenceInterop.js around the method, for the graph stored
  in \<^verbatim>\<open>window.criminalGraph\<close> (\<open>None\<close>: not initialised): \<^verbatim>\<open>return path || []\<close>, and \<^verbatim>\<open>[]\<close> when
  there is no graph.
\<close>

definition criminalNetwork_findShortestPath :: "link list option \<Rightarrow> js_id \<Rightarrow> js_id \<Rightarrow> js_id list" where
  "criminalNetwork_findShortestPath criminalGraph sourceId targetId =
     (case criminalGraph of
        None \<Rightarrow> []
      | Some links \<Rightarrow>
          (case findShortestPath links sourceId targetId of None \<Rightarrow> [] | Some path \<Rightarrow> path))"

text \<open>
  The links of a graph as \<^verbatim>\<open>findShortestPath\<close> reads them: a link whose two ends are node
  objects gives their ids. (An end that is still an id has no \<^verbatim>\<open>id\<close> property, and such a
  link never matches a node.)
\<close>

definition graphLinks :: "network_graph \<Rightarrow> link list" where
  "graphLinks g =
     concat (map (\<lambda>l. case (l_source l, l_target l) of
                         (EndNode s, EndNode t) \<Rightarrow> [\<lparr>source_id = s, target_id = t\<rparr>]
                       | _ \<Rightarrow> []) (g_links g))"

text \<open>
  What the search is measured against: two nodes are adjacent when a link joins them, in
  either direction; a path is a non-empty sequence of nodes in which neighbours are
  adjacent. Its hop count is its length minus one.
\<close>

definition adjacent :: "link list \<Rightarrow> js_id \<Rightarrow> js_id \<Rightarrow> bool" where
  "adjacent links u v =
     list_ex (\<lambda>l. (source_id l = u \<and> target_id l = v) \<or> (target_id l = u \<and> source_id l = v)) links"

fun isPath :: "link list \<Rightarrow> js_id list \<Rightarrow> bool" where
  "isPath links [] = False"
| "isPath links [x] = True"
| "isPath links (x # y # r) = (adjacent links x y \<and> isPath links (y # r))"

definition pathBetween :: "link list \<Rightarrow> js_id \<Rightarrow> js_id \<Rightarrow> js_id list \<Rightarrow> bool" where
  "pathBetween links a b p \<longleftrightarrow> isPath links p \<and> hd p = a \<and> last p = b"

text \<open>
  The invariant of the loop. \<open>done\<close> are the paths already taken from the queue, in
  order; together with the queue they are all paths ever enqueued.
\<close>

definition bfs_inv ::
  "link list \<Rightarrow> js_id \<Rightarrow> js_id \<Rightarrow> js_id list list \<Rightarrow> js_id list list \<Rightarrow> js_id set \<Rightarrow> bool" where
  "bfs_inv links src tgt done queue visited \<longleftrightarrow>
     (\<forall>p\<in>set (done @ queue). isPath links p \<and> hd p = src) \<and>
     visited = last ` set (done @ queue) \<and>
     sorted (map length (done @ queue)) \<and>
     (\<forall>p\<in>set queue. \<forall>r\<in>set (done @ queue). length r \<le> Suc (length p)) \<and>
     (\<forall>p\<in>set done. \<forall>n. truthy n \<and> adjacent links (last p) n \<longrightarrow>
        (\<exists>r\<in>set (done @ queue). last r = n \<and> length r \<le> Suc (length p))) \<and>
     (\<forall>p\<in>set done. last p \<noteq> tgt) \<and>
     [src] \<in> set (done @ queue)"

section \<open>The registry of graphs (\<^verbatim>\<open>graphInstances\<close>, \<^verbatim>\<open>initializeNetworkGraph\<close>)\<close>

text \<open>
  The module keeps \<^verbatim>\<open>const graphInstances = new Map()\<close> from generated graph ids to
  \<^verbatim>\<open>NetworkGraph\<close> objects. The state holds the ids of the elements of the document, the
  map in insertion order, and the graph objects that have been constructed and not
  destroyed, each with the container it drew its \<^verbatim>\<open>svg\<close> into. Objects are numbered as
  they are constructed. d3 is taken to be loaded and its calls to return.
\<close>

record graph_module =
  gm_document :: "string list"
  graphInstances :: "(string \<times> nat) list"
  liveGraphs :: "(nat \<times> string) list"
  gm_nextObject :: nat
  gm_console :: console

text \<open>
  \<^verbatim>\<open>new NetworkGraph(containerId, options)\<close>: the constructor throws
  \<^verbatim>\<open>new Error(`Container ${containerId} not found`)\<close> when \<^verbatim>\<open>getElementById\<close> finds nothing.
\<close>

definition new_NetworkGraph :: "string \<Rightarrow> graph_module \<Rightarrow> (js_error + nat) \<times> graph_module" where
  "new_NetworkGraph containerId m =
     (if containerId \<notin> set (gm_document m)
      then (Inl (Error (''Container '' @ containerId @ '' not found'')), m)
      else (Inr (gm_nextObject m),
            m\<lparr>liveGraphs := liveGraphs m @ [(gm_nextObject m, containerId)],
              gm_nextObject := Suc (gm_nextObject m)\<rparr>))"

text \<open>
  \<^verbatim>\<open>initializeNetworkGraph(containerId, options, dotNetReference)\<close>. The id
  \<^verbatim>\<open>graph-${Date.now()}-${Math.random()...}\<close> is the argument \<open>graphId\<close>. The \<^verbatim>\<open>catch\<close> block
  prints the error and throws it again.
\<close>

definition initializeNetworkGraph ::
  "string \<Rightarrow> string \<Rightarrow> graph_module \<Rightarrow> (js_error + string) \<times> graph_module" where
  "initializeNetworkGraph graphId containerId m =
     (case new_NetworkGraph containerId m of
        (Inl e, m1) \<Rightarrow>
          (Inl e, m1\<lparr>gm_console := gm_console m1 @ [(Err, ''Error initializing NetworkGraph:'')]\<rparr>)
      | (Inr graph, m1) \<Rightarrow>
          (Inr graphId,
           m1\<lparr>graphInstances := AList.update graphId graph (graphInstances m1),
              gm_console := gm_console m1 @ [(Log, ''NetworkGraph initialized with ID: '' @ graphId)]\<rparr>))"

text \<open>The registry entries whose graph is bound to a container, and the live graphs on it.\<close>

definition graphEntriesFor :: "graph_module \<Rightarrow> string \<Rightarrow> (string \<times> nat) list" where
  "graphEntriesFor m containerId =
     filter (\<lambda>(k, g). (g, containerId) \<in> set (liveGraphs m)) (graphInstances m)"

definition liveGraphsOn :: "graph_module \<Rightarrow> string \<Rightarrow> nat list" where
  "liveGraphsOn m containerId = map fst (filter (\<lambda>(g, c). c = containerId) (liveGraphs m))"

section \<open>NetworkGraphInterop (the vis.js network singleton)\<close>

text \<open>
  The module variables \<^verbatim>\<open>network\<close>, \<^verbatim>\<open>nodes\<close>, \<^verbatim>\<open>edges\<close>, \<^verbatim>\<open>container\<close> and \<^verbatim>\<open>dotNetHelper\<close>
  (\<open>None\<close> is \<^verbatim>\<open>null\<close>), the document, and the \<^verbatim>\<open>vis.Network\<close> objects that are alive.
\<close>

record network_interop =
  ni_document :: "string list"
  network :: "nat option"
  ni_nodes :: "nat option"
  ni_edges :: "nat option"
  ni_container :: "string option"
  dotNetHelper :: "nat option"
  liveNetworks :: "(nat \<times> string) list"
  ni_nextObject :: nat
  ni_console :: console

text \<open>
  \<^verbatim>\<open>initialize(containerId, dotNetRef)\<close>. There is no \<^verbatim>\<open>try\<close> in it: when
  \<^verbatim>\<open>new vis.Network\<close> throws (\<open>create\<close>), the caller gets the exception. The two data sets
  and the network take the next three object numbers.
\<close>

definition NetworkGraphInterop_initialize ::
  "lib_outcome \<Rightarrow> string \<Rightarrow> nat option \<Rightarrow> network_interop \<Rightarrow> (js_error + bool) \<times> network_interop" where
  "NetworkGraphInterop_initialize create containerId dotNetRef s =
     (if containerId \<notin> set (ni_document s)
      then (Inr False,
            s\<lparr>ni_container := None,
              ni_console := ni_console s @ [(Err, ''Container element not found: '' @ containerId)]\<rparr>)
      else (let k = ni_nextObject s;
                s1 = s\<lparr>ni_container := Some containerId, dotNetHelper := dotNetRef,
                       ni_nodes := Some k, ni_edges := Some (k + 1), ni_nextObject := k + 2\<rparr>
            in case create of
                 Throws \<Rightarrow> (Inl (Error ''vis.Network''), s1)
               | Returns \<Rightarrow>
                   (Inr True,
                    s1\<lparr>network := Some (k + 2),
                       liveNetworks := liveNetworks s1 @ [(k + 2, containerId)],
                       ni_nextObject := k + 3,
                       ni_console := ni_console s1 @ [(Log, ''Network graph initialized successfully'')]\<rparr>)))"

text \<open>
  \<^verbatim>\<open>destroy()\<close>: \<^verbatim>\<open>if (network) { network.destroy(); network = null; nodes = null; edges = null;
  dotNetHelper = null; return true; } return false;\<close> Again without \<^verbatim>\<open>try\<close>.
\<close>

definition NetworkGraphInterop_destroy ::
  "lib_outcome \<Rightarrow> network_interop \<Rightarrow> (js_error + bool) \<times> network_interop" where
  "NetworkGraphInterop_destroy destroyCall s =
     (case network s of
        None \<Rightarrow> (Inr False, s)
      | Some n \<Rightarrow>
          (case destroyCall of
             Throws \<Rightarrow> (Inl (Error ''network.destroy''), s)
           | Returns \<Rightarrow>
               (Inr True,
                s\<lparr>liveNetworks := filter (\<lambda>(h, c). h \<noteq> n) (liveNetworks s),
                  network := None, ni_nodes := None, ni_edges := None, dotNetHelper := None\<rparr>)))"

definition newNetworkInterop :: "string list \<Rightarrow> network_interop" where
  "newNetworkInterop doc =
     \<lparr>ni_document = doc, network = None, ni_nodes = None, ni_edges = None, ni_container = None,
      dotNetHelper = None, liveNetworks = [], ni_nextObject = 0, ni_console = []\<rparr>"

section \<open>The timeline module (\<^verbatim>\<open>timelineInstances\<close> and the shipment playback)\<close>

text \<open>
  The module keeps \<^verbatim>\<open>let dotNetReference\<close>, \<^verbatim>\<open>const timelineInstances = new Map()\<close> from
  container ids to \<^verbatim>\<open>vis.Timeline\<close> objects, and the record \<^verbatim>\<open>shipmentTimelinePlayback\<close>. The
  state adds what the module acts on: the document, whether \<^verbatim>\<open>vis\<close> and
  \<^verbatim>\<open>TimelineEnhancements\<close> are defined, the timelines that are alive (constructed and not
  destroyed) with their containers, and the browser's active interval timers.
\<close>

record playback =
  interval :: "nat option"
  currentIndex :: nat
  pb_isPlaying :: bool
  pb_containerId :: "string option"

record timeline_module =
  tm_document :: "string list"
  visDefined :: bool
  enhancementsDefined :: bool
  dotNetReference :: "nat option"
  timelineInstances :: "(string \<times> nat) list"
  liveTimelines :: "(nat \<times> string) list"
  tm_nextObject :: nat
  shipmentTimelinePlayback :: playback
  tm_intervals :: "nat list"
  tm_nextInterval :: nat
  tm_selection :: "nat option"
  tm_console :: console

text \<open>
  The outcomes of the vis.js calls one operation makes: \<^verbatim>\<open>timeline.destroy()\<close>; the
  construction of the data sets and of the \<^verbatim>\<open>vis.Timeline\<close>; the features that
  \<^verbatim>\<open>TimelineEnhancements.initialize\<close> adds to the timeline it has constructed; the
  \<^verbatim>\<open>timeline.on(...)\<close> registrations. A \<^verbatim>\<open>destroy\<close> that throws is taken to leave the timeline
  alive, a constructor that throws to create nothing.
\<close>

record lib_env =
  destroyOutcome :: lib_outcome
  createOutcome :: lib_outcome
  featuresOutcome :: lib_outcome
  handlersOutcome :: lib_outcome

definition tm_print :: "log_level \<Rightarrow> string \<Rightarrow> timeline_module \<Rightarrow> timeline_module" where
  "tm_print lvl msg w = w\<lparr>tm_console := tm_console w @ [(lvl, msg)]\<rparr>"

text \<open>
  \<^verbatim>\<open>if (timelineInstances.has(containerId)) { const existingTimeline = ...get(containerId);
  existingTimeline.destroy(); timelineInstances.delete(containerId); }\<close>
\<close>

definition destroyExisting ::
  "lib_env \<Rightarrow> string \<Rightarrow> timeline_module \<Rightarrow> (js_error + unit) \<times> timeline_module" where
  "destroyExisting env containerId w =
     (case map_of (timelineInstances w) containerId of
        None \<Rightarrow> (Inr (), w)
      | Some existingTimeline \<Rightarrow>
          (case destroyOutcome env of
             Throws \<Rightarrow> (Inl (Error ''timeline.destroy''), w)
           | Returns \<Rightarrow>
               (Inr (),
                w\<lparr>liveTimelines := filter (\<lambda>(t, c). t \<noteq> existingTimeline) (liveTimelines w),
                  timelineInstances := AList.delete containerId (timelineInstances w)\<rparr>)))"

text \<open>\<^verbatim>\<open>new vis.Timeline(container, items, ...)\<close> on the element with the given id.\<close>

definition new_Timeline ::
  "lib_env \<Rightarrow> string \<Rightarrow> timeline_module \<Rightarrow> (js_error + nat) \<times> timeline_module" where
  "new_Timeline env containerId w =
     (case createOutcome env of
        Throws \<Rightarrow> (Inl (Error ''vis.Timeline''), w)
      | Returns \<Rightarrow>
          (Inr (tm_nextObject w),
           w\<lparr>liveTimelines := liveTimelines w @ [(tm_nextObject w, containerId)],
             tm_nextObject := Suc (tm_nextObject w)\<rparr>))"

text \<open>
  \<^verbatim>\<open>TimelineEnhancements.initialize(containerId, items, groups, options)\<close> of
  timeline-enhancements.js: \<^verbatim>\<open>null\<close> when the container is missing; otherwise it constructs the
  timeline, adds tooltips, keyboard navigation, theme support and pattern detection, and
  returns it.
\<close>

definition TimelineEnhancements_initialize ::
  "lib_env \<Rightarrow> string \<Rightarrow> timeline_module \<Rightarrow> (js_error + nat option) \<times> timeline_module" where
  "TimelineEnhancements_initialize env containerId w =
     (if containerId \<notin> set (tm_document w)
      then (Inr None, tm_print Err (''Timeline container not found: '' @ containerId) w)
      else (case new_Timeline env containerId w of
              (Inl e, w1) \<Rightarrow> (Inl e, w1)
            | (Inr timeline, w1) \<Rightarrow>
                (case featuresOutcome env of
                   Throws \<Rightarrow> (Inl (TypeError ''enhanced features''), w1)
                 | Returns \<Rightarrow> (Inr (Some timeline), w1))))"

text \<open>
  \<^verbatim>\<open>initializeEnhancedTimeline(containerId, items, groups, options, dotNetRef,
  useEnhancements)\<close>. The whole body is inside \<^verbatim>\<open>try { ... } catch (error) { console.error(...);
  return false; }\<close>, so every exception becomes the result \<^verbatim>\<open>false\<close>.
\<close>

definition initializeEnhancedTimeline ::
  "lib_env \<Rightarrow> string \<Rightarrow> nat option \<Rightarrow> bool \<Rightarrow> timeline_module \<Rightarrow> bool \<times> timeline_module" where
  "initializeEnhancedTimeline env containerId dotNetRef useEnhancements w =
     (let w0 = (case dotNetRef of None \<Rightarrow> w | Some r \<Rightarrow> w\<lparr>dotNetReference := Some r\<rparr>)
      in if \<not> visDefined w0 then (False, tm_print Err ''vis.js library not loaded'' w0)
         else if containerId \<notin> set (tm_document w0)
         then (False, tm_print Err (''Container '' @ containerId @ '' not found'') w0)
         else
           (case destroyExisting env containerId w0 of
              (Inl e, w1) \<Rightarrow> (False, tm_print Err ''Error initializing enhanced timeline:'' w1)
            | (Inr u, w1) \<Rightarrow>
                (case (if useEnhancements \<and> enhancementsDefined w1
                       then TimelineEnhancements_initialize env containerId w1
                       else (case new_Timeline env containerId w1 of
                               (Inl e, w2) \<Rightarrow> (Inl e, w2)
                             | (Inr t, w2) \<Rightarrow> (Inr (Some t), w2))) of
                   (Inl e, w2) \<Rightarrow> (False, tm_print Err ''Error initializing enhanced timeline:'' w2)
                 | (Inr None, w2) \<Rightarrow> (False, tm_print Err ''Failed to initialize timeline'' w2)
                 | (Inr (Some timeline), w2) \<Rightarrow>
                     (let w3 = w2\<lparr>timelineInstances :=
                                    AList.update containerId timeline (timelineInstances w2)\<rparr>
                      in case handlersOutcome env of
                           Throws \<Rightarrow> (False, tm_print Err ''Error initializing enhanced timeline:'' w3)
                         | Returns \<Rightarrow>
                             (True, tm_print Log
                                (''Enhanced timeline initialized successfully: '' @ containerId) w3)))))"

text \<open>
  \<^verbatim>\<open>destroyTimeline(containerId)\<close>: \<^verbatim>\<open>try { const timeline = timelineInstances.get(containerId);
  if (timeline) { timeline.destroy(); timelineInstances.delete(containerId); console.log(...); }
  return true; } catch (error) { console.error(...); return false; }\<close>
\<close>

definition destroyTimeline :: "lib_env \<Rightarrow> string \<Rightarrow> timeline_module \<Rightarrow> bool \<times> timeline_module" where
  "destroyTimeline env containerId w =
     (case map_of (timelineInstances w) containerId of
        None \<Rightarrow> (True, w)
      | Some timeline \<Rightarrow>
          (case destroyOutcome env of
             Throws \<Rightarrow> (False, tm_print Err ''Error destroying timeline:'' w)
           | Returns \<Rightarrow>
               (True,
                tm_print Log (''Timeline '' @ containerId @ '' destroyed'')
                  (w\<lparr>liveTimelines := filter (\<lambda>(t, c). t \<noteq> timeline) (liveTimelines w),
                     timelineInstances := AList.delete containerId (timelineInstances w)\<rparr>))))"

text \<open>The live timelines on a container, and the module before any call.\<close>

definition liveTimelinesOn :: "timeline_module \<Rightarrow> string \<Rightarrow> nat list" where
  "liveTimelinesOn w containerId = map fst (filter (\<lambda>(t, c). c = containerId) (liveTimelines w))"

definition newTimelineModule :: "string list \<Rightarrow> timeline_module" where
  "newTimelineModule doc =
     \<lparr>tm_document = doc, visDefined = True, enhancementsDefined = True, dotNetReference = None,
      timelineInstances = [], liveTimelines = [], tm_nextObject = 0,
      shipmentTimelinePlayback =
        \<lparr>interval = None, currentIndex = 0, pb_isPlaying = False, pb_containerId = None\<rparr>,
      tm_intervals = [], tm_nextInterval = 1, tm_selection = None, tm_console = []\<rparr>"

text \<open>
  The registry is consistent with the live timelines when its keys are distinct, each entry
  \<open>(c, t)\<close> is a live timeline \<open>t\<close> on container \<open>c\<close>, every live timeline is
  registered, no object is alive twice, and object numbers still to be handed out are unused.
\<close>

definition consistent :: "timeline_module \<Rightarrow> bool" where
  "consistent w \<longleftrightarrow>
     distinct (map fst (timelineInstances w)) \<and>
     distinct (map fst (liveTimelines w)) \<and>
     set (liveTimelines w) = (\<lambda>(c, t). (t, c)) ` set (timelineInstances w) \<and>
     (\<forall>(t, c)\<in>set (liveTimelines w). t < tm_nextObject w)"

subsection \<open>Shipment playback\<close>

text \<open>
  \<^verbatim>\<open>initializeShipmentTimeline(containerId, timelineData)\<close>: the same guard, tear-down and
  construction, then \<^verbatim>\<open>shipmentTimelinePlayback.containerId = containerId\<close>.
\<close>

definition initializeShipmentTimeline ::
  "lib_env \<Rightarrow> string \<Rightarrow> timeline_module \<Rightarrow> bool \<times> timeline_module" where
  "initializeShipmentTimeline env containerId w =
     (if containerId \<notin> set (tm_document w)
      then (False, tm_print Err (''Container '' @ containerId @ '' not found'') w)
      else if \<not> visDefined w then (False, tm_print Err ''vis.js library not loaded'' w)
      else
        (case destroyExisting env containerId w of
           (Inl e, w1) \<Rightarrow> (False, tm_print Err ''Error initializing shipment timeline:'' w1)
         | (Inr u, w1) \<Rightarrow>
             (case new_Timeline env containerId w1 of
                (Inl e, w2) \<Rightarrow> (False, tm_print Err ''Error initializing shipment timeline:'' w2)
              | (Inr timeline, w2) \<Rightarrow>
                  (case handlersOutcome env of
                     Throws \<Rightarrow> (False, tm_print Err ''Error initializing shipment timeline:'' w2)
                   | Returns \<Rightarrow>
                       (True,
                        tm_print Log (''Shipment timeline initialized: '' @ containerId)
                          (w2\<lparr>timelineInstances :=
                                 AList.update containerId timeline (timelineInstances w2),
                              shipmentTimelinePlayback :=
                                (shipmentTimelinePlayback w2)\<lparr>pb_containerId := Some containerId\<rparr>\<rparr>))))))"

text \<open>
  \<^verbatim>\<open>pauseShipmentTimeline()\<close>: clears the interval when the field is truthy and sets
  \<^verbatim>\<open>isPlaying = false\<close>.
\<close>

definition clearShipmentInterval :: "timeline_module \<Rightarrow> timeline_module" where
  "clearShipmentInterval w =
     (case interval (shipmentTimelinePlayback w) of
        None \<Rightarrow> w
      | Some t \<Rightarrow>
          if t \<noteq> 0
          then w\<lparr>tm_intervals := removeAll t (tm_intervals w),
                 shipmentTimelinePlayback := (shipmentTimelinePlayback w)\<lparr>interval := None\<rparr>\<rparr>
          else w)"

definition pauseShipmentTimeline :: "timeline_module \<Rightarrow> bool \<times> timeline_module" where
  "pauseShipmentTimeline w =
     (let w1 = clearShipmentInterval w
      in (True,
          tm_print Log ''Shipment timeline playback paused''
            (w1\<lparr>shipmentTimelinePlayback := (shipmentTimelinePlayback w1)\<lparr>pb_isPlaying := False\<rparr>\<rparr>)))"

text \<open>
  \<^verbatim>\<open>playShipmentTimeline()\<close>. \<open>items\<close> is what \<^verbatim>\<open>timeline.itemsData.get({order: 'start'})\<close>
  returns (the ids of the items, by time), or the exception it throws.
\<close>

definition playShipmentTimeline ::
  "(js_error + nat list) \<Rightarrow> timeline_module \<Rightarrow> bool \<times> timeline_module" where
  "playShipmentTimeline items w =
     (case pb_containerId (shipmentTimelinePlayback w) of
        None \<Rightarrow> (False, tm_print Warn ''No shipment timeline initialized for playback'' w)
      | Some containerId \<Rightarrow>
          if containerId = [] then (False, tm_print Warn ''No shipment timeline initialized for playback'' w)
          else
          (case map_of (timelineInstances w) containerId of
             None \<Rightarrow> (False, tm_print Warn (''Timeline '' @ containerId @ '' not found'') w)
           | Some timeline \<Rightarrow>
               (case items of
                  Inl e \<Rightarrow> (False, tm_print Err ''Error playing shipment timeline:'' w)
                | Inr its \<Rightarrow>
                    if length its = 0 then (False, tm_print Warn ''No items to play'' w)
                    else if pb_isPlaying (shipmentTimelinePlayback w)
                    then (True, tm_print Log ''Shipment timeline already playing'' w)
                    else
                      (let pb = shipmentTimelinePlayback w;
                           pb1 = pb\<lparr>pb_isPlaying := True\<rparr>;
                           pb2 = (if currentIndex pb1 \<ge> length its then pb1\<lparr>currentIndex := 0\<rparr> else pb1);
                           t = tm_nextInterval w
                       in (True,
                           tm_print Log ''Shipment timeline playback started''
                             (w\<lparr>shipmentTimelinePlayback := pb2\<lparr>interval := Some t\<rparr>,
                                tm_intervals := tm_intervals w @ [t],
                                tm_nextInterval := Suc t\<rparr>))))))"

text \<open>
  The callback of that interval, for the items captured when playback started: it selects
  and focuses the current item and advances, or pauses at the end.
\<close>

definition shipmentTick :: "nat list \<Rightarrow> timeline_module \<Rightarrow> timeline_module" where
  "shipmentTick its w =
     (let pb = shipmentTimelinePlayback w
      in if currentIndex pb < length its
         then w\<lparr>tm_selection := Some (its ! currentIndex pb),
                shipmentTimelinePlayback := pb\<lparr>currentIndex := Suc (currentIndex pb)\<rparr>\<rparr>
         else snd (pauseShipmentTimeline w))"

text \<open>
  \<^verbatim>\<open>stopShipmentTimeline()\<close>: clears the interval, resets \<^verbatim>\<open>isPlaying\<close> and \<^verbatim>\<open>currentIndex\<close>,
  and clears the selection of the timeline when there is one.
\<close>

definition stopShipmentTimeline :: "timeline_module \<Rightarrow> bool \<times> timeline_module" where
  "stopShipmentTimeline w =
     (let w1 = clearShipmentInterval w;
          w2 = w1\<lparr>shipmentTimelinePlayback :=
                    (shipmentTimelinePlayback w1)\<lparr>pb_isPlaying := False, currentIndex := 0\<rparr>\<rparr>;
          w3 = (case pb_containerId (shipmentTimelinePlayback w2) of
                  None \<Rightarrow> w2
                | Some c \<Rightarrow>
                    (case map_of (timelineInstances w2) c of
                       None \<Rightarrow> w2
                     | Some timeline \<Rightarrow> w2\<lparr>tm_selection := None\<rparr>))
      in (True, tm_print Log ''Shipment timeline playback stopped and reset'' w3))"

text \<open>
  One step of the shipment playback as the host and the browser drive it. A timer fires
  only while it is active; the items are the ones \<^verbatim>\<open>playShipmentTimeline\<close> read.
\<close>

datatype shipment_event =
  Play "nat list" | Pause | Stop | Tick "nat list" | InitShipment lib_env string

fun shipmentStep :: "shipment_event \<Rightarrow> timeline_module \<Rightarrow> timeline_module" where
  "shipmentStep (Play its) w = snd (playShipmentTimeline (Inr its) w)"
| "shipmentStep Pause w = snd (pauseShipmentTimeline w)"
| "shipmentStep Stop w = snd (stopShipmentTimeline w)"
| "shipmentStep (Tick its) w = (if tm_intervals w = [] then w else shipmentTick its w)"
| "shipmentStep (InitShipment env c) w = snd (initializeShipmentTimeline env c w)"

definition playbackInv :: "timeline_module \<Rightarrow> bool" where
  "playbackInv w \<longleftrightarrow>
     tm_nextInterval w > 0 \<and>
     (if pb_isPlaying (shipmentTimelinePlayback w)
      then (\<exists>t. interval (shipmentTimelinePlayback w) = Some t \<and> t \<noteq> 0
                \<and> tm_intervals w = [t] \<and> t < tm_nextInterval w)
      else tm_intervals w = [])"

section \<open>TimelineViz playback (toolkits/timelineViz.js)\<close>

text \<open>
  The playback part of the class \<^verbatim>\<open>TimelineViz\<close>. An object carries the fields
  \<^verbatim>\<open>events\<close>, \<^verbatim>\<open>isPlaying\<close>, \<^verbatim>\<open>playbackIndex\<close>, \<^verbatim>\<open>playbackSpeed\<close> and
  \<^verbatim>\<open>playbackTimer\<close>. The browser's interval timers are part of the state: \<^verbatim>\<open>setInterval\<close>
  hands out the next identifier and makes it active, \<^verbatim>\<open>clearInterval\<close> removes it from the
  active ones. Events are kept by their time stamp (milliseconds). The field \<open>highlightedUpTo\<close>
  records the last call of \<^verbatim>\<open>highlightEventAtTime\<close> (\<open>None\<close>: every point at opacity 1), the
  field \<open>ticks\<close> the calls of the \<^verbatim>\<open>onPlaybackTick\<close> callback.
\<close>

record timeline_viz =
  events :: "int list"
  isPlaying :: bool
  playbackIndex :: nat
  playbackSpeed :: nat
  playbackTimer :: "nat option"
  activeTimers :: "nat list"
  nextTimerId :: nat
  highlightedUpTo :: "int option"
  ticks :: "(int \<times> nat) list"

text \<open>\<^verbatim>\<open>setInterval(cb, speed)\<close>: a fresh identifier becomes active.\<close>

definition setInterval :: "timeline_viz \<Rightarrow> nat \<times> timeline_viz" where
  "setInterval v =
     (nextTimerId v,
      v\<lparr>activeTimers := activeTimers v @ [nextTimerId v], nextTimerId := Suc (nextTimerId v)\<rparr>)"

text \<open>\<^verbatim>\<open>clearInterval(id)\<close>: the identifier is no longer active (unknown ones are ignored).\<close>

definition clearInterval :: "nat \<Rightarrow> timeline_viz \<Rightarrow> timeline_viz" where
  "clearInterval t v = v\<lparr>activeTimers := removeAll t (activeTimers v)\<rparr>"

text \<open>
  \<^verbatim>\<open>addPlaybackControls() { this.playbackIndex = 0; this.isPlaying = false;
  this.playbackSpeed = 1000; }\<close>
\<close>

definition addPlaybackControls :: "timeline_viz \<Rightarrow> timeline_viz" where
  "addPlaybackControls v = v\<lparr>playbackIndex := 0, isPlaying := False, playbackSpeed := 1000\<rparr>"

text \<open>
  \<^verbatim>\<open>play() { if (this.isPlaying) return; this.isPlaying = true; this.playbackIndex = 0;
  this.playbackTimer = setInterval(..., this.playbackSpeed); }\<close>
\<close>

definition TimelineViz_play :: "timeline_viz \<Rightarrow> timeline_viz" where
  "TimelineViz_play v =
     (if isPlaying v then v
      else (let v1 = v\<lparr>isPlaying := True, playbackIndex := 0\<rparr>;
                (t, v2) = setInterval v1
            in v2\<lparr>playbackTimer := Some t\<rparr>))"

text \<open>
  \<^verbatim>\<open>pause() { this.isPlaying = false; if (this.playbackTimer) clearInterval(this.playbackTimer); }\<close>
  The test is JavaScript truthiness: an undefined field and the number 0 do not pass.
\<close>

definition TimelineViz_pause :: "timeline_viz \<Rightarrow> timeline_viz" where
  "TimelineViz_pause v =
     (let v1 = v\<lparr>isPlaying := False\<rparr>
      in case playbackTimer v1 of
           None \<Rightarrow> v1
         | Some t \<Rightarrow> if t \<noteq> 0 then clearInterval t v1 else v1)"

text \<open>
  \<^verbatim>\<open>stop() { this.pause(); this.playbackIndex = 0; ...style('opacity', 1); }\<close>
\<close>

definition TimelineViz_stop :: "timeline_viz \<Rightarrow> timeline_viz" where
  "TimelineViz_stop v = (TimelineViz_pause v)\<lparr>playbackIndex := 0, highlightedUpTo := None\<rparr>"

text \<open>
  The callback handed to \<^verbatim>\<open>setInterval\<close> in \<^verbatim>\<open>play\<close>, run once per firing of a timer:
  past the last event it stops the playback, otherwise it highlights the event at
  \<^verbatim>\<open>playbackIndex\<close>, reports it and advances.
\<close>

definition TimelineViz_tick :: "timeline_viz \<Rightarrow> timeline_viz" where
  "TimelineViz_tick v =
     (if playbackIndex v \<ge> length (events v) then TimelineViz_stop v
      else (let e = events v ! playbackIndex v
            in v\<lparr>highlightedUpTo := Some e,
                 ticks := ticks v @ [(e, playbackIndex v)],
                 playbackIndex := Suc (playbackIndex v)\<rparr>))"

text \<open>
  \<^verbatim>\<open>render()\<close> draws axis, events and brush through d3 and ends with
  \<^verbatim>\<open>this.addPlaybackControls()\<close>; only that last call touches the playback fields.
  \<^verbatim>\<open>loadData(events)\<close> stores the events sorted by date and calls \<^verbatim>\<open>render()\<close>.
\<close>

definition TimelineViz_render :: "timeline_viz \<Rightarrow> timeline_viz" where
  "TimelineViz_render v = addPlaybackControls v"

definition TimelineViz_loadData :: "int list \<Rightarrow> timeline_viz \<Rightarrow> timeline_viz" where
  "TimelineViz_loadData es v = TimelineViz_render (v\<lparr>events := sort es\<rparr>)"

text \<open>
  The object as the constructor leaves it: no events, the playback fields not yet assigned
  (an undefined \<^verbatim>\<open>isPlaying\<close> is falsy), no timer. Browser timer identifiers start at 1.
\<close>

definition newTimelineViz :: timeline_viz where
  "newTimelineViz =
     \<lparr>events = [], isPlaying = False, playbackIndex = 0, playbackSpeed = 0,
      playbackTimer = None, activeTimers = [], nextTimerId = 1,
      highlightedUpTo = None, ticks = []\<rparr>"

section \<open>TimelineEnhancements.detectBursts (timeline-enhancements.js)\<close>

text \<open>
  An item of the timeline with the time \<^verbatim>\<open>new Date(item.start)\<close> in milliseconds, and a
  reported burst \<^verbatim>\<open>{start, count, items}\<close>.
\<close>

record item =
  item_id :: nat
  start :: int

record burst =
  b_start :: int
  b_count :: nat
  b_items :: "item list"

text \<open>
  The inner loop \<^verbatim>\<open>for (let j = i + 1; ...)\<close> over the items after position \<open>i\<close>: it counts
  them while \<^verbatim>\<open>nextTime - currentTime < timeWindow\<close> and breaks at the first that is not.
\<close>

fun countFollowing :: "int \<Rightarrow> int \<Rightarrow> item list \<Rightarrow> nat" where
  "countFollowing timeWindow currentTime [] = 0"
| "countFollowing timeWindow currentTime (x # xs) =
     (if start x - currentTime < timeWindow
      then Suc (countFollowing timeWindow currentTime xs) else 0)"

text \<open>
  The outer loop \<^verbatim>\<open>for (let i = 0; ...)\<close>, on the sorted items from position \<open>i\<close> on;
  \<^verbatim>\<open>sortedItems.slice(i, i + count)\<close> is \<open>take count\<close> of them.
\<close>

fun burstsFrom :: "nat \<Rightarrow> int \<Rightarrow> item list \<Rightarrow> burst list" where
  "burstsFrom threshold timeWindow [] = []"
| "burstsFrom threshold timeWindow (x # xs) =
     (let count = 1 + countFollowing timeWindow (start x) xs
      in (if count \<ge> threshold
          then [\<lparr>b_start = start x, b_count = count, b_items = take count (x # xs)\<rparr>]
          else [])
         @ burstsFrom threshold timeWindow xs)"

text \<open>
  \<^verbatim>\<open>items.sort((a, b) => new Date(a.start) - new Date(b.start))\<close> is a stable sort by time.
  The function fixes \<^verbatim>\<open>threshold = 5\<close> and \<^verbatim>\<open>timeWindow = 60 * 60 * 1000\<close>; they are local
  constants, not parameters.
\<close>

definition detectBurstsWith :: "nat \<Rightarrow> int \<Rightarrow> item list \<Rightarrow> burst list" where
  "detectBurstsWith threshold timeWindow items = burstsFrom threshold timeWindow (sort_key start items)"

definition detectBursts :: "item list \<Rightarrow> burst list" where
  "detectBursts items = detectBurstsWith 5 (60 * 60 * 1000) items"

text \<open>
  The run the code measures at position \<open>i\<close> of the sorted items: item \<open>i\<close> and the items
  after it up to the first whose time is not less than \<open>timeWindow\<close> after the time of
  item \<open>i\<close>.
\<close>

definition runAt :: "int \<Rightarrow> item list \<Rightarrow> nat \<Rightarrow> item list" where
  "runAt timeWindow s i =
     s ! i # takeWhile (\<lambda>y. start y - start (s ! i) < timeWindow) (drop (Suc i) s)"

definition anchoredBursts :: "nat \<Rightarrow> int \<Rightarrow> item list \<Rightarrow> burst list" where
  "anchoredBursts threshold timeWindow s =
     map (\<lambda>i. \<lparr>b_start = start (s ! i), b_count = length (runAt timeWindow s i),
               b_items = runAt timeWindow s i\<rparr>)
       (filter (\<lambda>i. threshold \<le> length (runAt timeWindow s i)) [0..<length s])"

text \<open>The five events of the scenario, one per minute from \<open>t = 0\<close>, and a sixth.\<close>

definition minute :: int where
  "minute = 60 * 1000"

definition fiveEvents :: "item list" where
  "fiveEvents =
     [\<lparr>item_id = 1, start = 0\<rparr>, \<lparr>item_id = 2, start = minute\<rparr>, \<lparr>item_id = 3, start = 2 * minute\<rparr>,
      \<lparr>item_id = 4, start = 3 * minute\<rparr>, \<lparr>item_id = 5, start = 4 * minute\<rparr>]"

definition sixEvents :: "item list" where
  "sixEvents = fiveEvents @ [\<lparr>item_id = 6, start = 5 * minute\<rparr>]"

text \<open>Seven events, each 12 minutes after the one before: 72 minutes from first to last.\<close>

definition chainEvents :: "item list" where
  "chainEvents = map (\<lambda>k. \<lparr>item_id = k, start = int k * 12 * minute\<rparr>) [0, 1, 2, 3, 4, 5, 6]"

section \<open>GeoMapViz.addMarkers\<close>

text \<open>
  A JavaScript number is a finite number, \<^verbatim>\<open>NaN\<close> or one of the two infinities. The value
  of a field of a location is a number, a string, \<^verbatim>\<open>null\<close>, or \<^verbatim>\<open>undefined\<close> for a missing
  field.
\<close>

datatype js_number = Finite real | NaN | PosInfinity | NegInfinity

datatype js_value = Num js_number | Str string | Null | Undefined

record location =
  latitude :: js_value
  longitude :: js_value
  riskScore :: js_value
  loc_name :: string

text \<open>\<^verbatim>\<open>isNaN(v)\<close> and the comparisons \<^verbatim>\<open>v >= c\<close>, \<^verbatim>\<open>v <= c\<close> on a number.\<close>

fun isNaN :: "js_number \<Rightarrow> bool" where
  "isNaN NaN = True"
| "isNaN v = False"

fun js_ge :: "js_number \<Rightarrow> real \<Rightarrow> bool" where
  "js_ge (Finite x) c = (x \<ge> c)"
| "js_ge PosInfinity c = True"
| "js_ge v c = False"

fun js_le :: "js_number \<Rightarrow> real \<Rightarrow> bool" where
  "js_le (Finite x) c = (x \<le> c)"
| "js_le NegInfinity c = True"
| "js_le v c = False"

text \<open>
  The predicate of \<^verbatim>\<open>locations.filter\<close>; an entry of the array that is \<^verbatim>\<open>null\<close> or
  \<^verbatim>\<open>undefined\<close> is \<open>None\<close>. The conjunction of the source stops at the first false
  conjunct: after \<^verbatim>\<open>location\<close> itself come the two \<^verbatim>\<open>typeof ... === 'number'\<close> tests, and
  only numbers reach \<^verbatim>\<open>isNaN\<close> and the comparisons.
\<close>

definition isValid :: "location option \<Rightarrow> bool" where
  "isValid l =
     (case l of
        None \<Rightarrow> False
      | Some loc \<Rightarrow>
          (case (latitude loc, longitude loc) of
             (Num lat, Num lng) \<Rightarrow>
               \<not> isNaN lat \<and> \<not> isNaN lng \<and>
               js_ge lat (- 90) \<and> js_le lat 90 \<and>
               js_ge lng (- 180) \<and> js_le lng 180
           | _ \<Rightarrow> False))"

text \<open>
  \<^verbatim>\<open>getRiskColor(riskScore)\<close> on a number.
\<close>

definition getRiskColor :: "js_number \<Rightarrow> string" where
  "getRiskColor r =
     (if js_ge r 8 then ''#e74c3c''
      else if js_ge r 6 then ''#e67e22''
      else if js_ge r 4 then ''#f39c12''
      else ''#3498db'')"

text \<open>
  A marker: the location it was created from (\<^verbatim>\<open>marker.locationData\<close>) and the colour of
  its icon.
\<close>

record marker =
  locationData :: location
  iconColor :: string

text \<open>
  \<^verbatim>\<open>createMarker(location)\<close>. \<^verbatim>\<open>createCustomIcon\<close> takes \<^verbatim>\<open>location.riskScore || 0\<close>, so that a
  missing, \<^verbatim>\<open>null\<close>, zero or \<^verbatim>\<open>NaN\<close> score counts as 0, and colours the icon; it cannot
  throw. \<^verbatim>\<open>createPopupContent\<close> then has
  \<^verbatim>\<open>if (location.riskScore !== undefined) { ... location.riskScore.toFixed(1) ... }\<close>: for
  \<^verbatim>\<open>null\<close> the property read throws a \<^verbatim>\<open>TypeError\<close>, for a string \<^verbatim>\<open>toFixed\<close> is not a
  function, which throws a \<^verbatim>\<open>TypeError\<close> too; for a number it returns. When it throws, the
  icon has been made but no marker is returned. Leaflet's own calls are taken to return.
\<close>

definition createMarker :: "location \<Rightarrow> js_error + marker" where
  "createMarker loc =
     (case riskScore loc of
        Undefined \<Rightarrow> Inr \<lparr>locationData = loc, iconColor = getRiskColor (Finite 0)\<rparr>
      | Num r \<Rightarrow>
          Inr \<lparr>locationData = loc,
               iconColor = getRiskColor (if r = Finite 0 \<or> r = NaN then Finite 0 else r)\<rparr>
      | Null \<Rightarrow> Inl (TypeError ''Cannot read properties of null (reading toFixed)'')
      | Str x \<Rightarrow> Inl (TypeError ''location.riskScore.toFixed is not a function''))"

text \<open>
  The map object: the markers created so far (\<^verbatim>\<open>this.markers\<close>), the layer they were added
  to (the cluster group when there is one, else the map), and the bounds last fitted.
\<close>

record geo_map =
  markers :: "marker list"
  hasClusters :: bool
  clusterLayer :: "marker list"
  mapLayer :: "marker list"
  fittedBounds :: "(js_value \<times> js_value) list option"

text \<open>
  The loop \<^verbatim>\<open>validLocations.forEach(location => { const marker = this.createMarker(location);
  this.markers.push(marker); ... })\<close>. An exception of \<^verbatim>\<open>createMarker\<close> ends the loop and
  leaves \<^verbatim>\<open>addMarkers\<close>, which has no \<^verbatim>\<open>try\<close>; the markers added before stay.
\<close>

fun addEach :: "location list \<Rightarrow> geo_map \<Rightarrow> (js_error + unit) \<times> geo_map" where
  "addEach [] gm = (Inr (), gm)"
| "addEach (loc # locs) gm =
     (case createMarker loc of
        Inl e \<Rightarrow> (Inl e, gm)
      | Inr m \<Rightarrow>
          addEach locs
            (gm\<lparr>markers := markers gm @ [m],
                clusterLayer := (if hasClusters gm then clusterLayer gm @ [m] else clusterLayer gm),
                mapLayer := (if hasClusters gm then mapLayer gm else mapLayer gm @ [m])\<rparr>))"

text \<open>
  \<^verbatim>\<open>addMarkers(locations)\<close>: the filter with its warnings, the early return when nothing is
  valid, the loop, and \<^verbatim>\<open>fitBounds\<close> on the valid locations when the loop has run to its end.
\<close>

definition addMarkers ::
  "location option list \<Rightarrow> geo_map \<Rightarrow> (js_error + unit) \<times> geo_map \<times> console" where
  "addMarkers locations gm =
     (let validLocations = map the (filter isValid locations);
          warnings = map (\<lambda>l. (Warn, ''Invalid marker location:'')) (filter (\<lambda>l. \<not> isValid l) locations)
      in if length validLocations = 0
         then (Inr (), gm, warnings @ [(Warn, ''No valid locations to add markers'')])
         else (case addEach validLocations gm of
                 (Inl e, gm1) \<Rightarrow> (Inl e, gm1, warnings)
               | (Inr u, gm1) \<Rightarrow>
                   (Inr (),
                    gm1\<lparr>fittedBounds :=
                          Some (map (\<lambda>loc. (latitude loc, longitude loc)) validLocations)\<rparr>,
                    warnings)))"

text \<open>A field holds a number within the closed interval from \<open>lo\<close> to \<open>hi\<close>.\<close>

definition inRange :: "real \<Rightarrow> real \<Rightarrow> js_value \<Rightarrow> bool" where
  "inRange lo hi v \<longleftrightarrow> (\<exists>x. v = Num (Finite x) \<and> lo \<le> x \<and> x \<le> hi)"

text \<open>A risk score that \<^verbatim>\<open>createPopupContent\<close> can format: missing, or a number.\<close>

fun usableRisk :: "js_value \<Rightarrow> bool" where
  "usableRisk Undefined = True"
| "usableRisk (Num r) = True"
| "usableRisk Null = False"
| "usableRisk (Str x) = False"

section \<open>Example inputs\<close>

text \<open>Two graphs for the search: a diamond with a short and a long way from a to c, and two
  components that no link joins.\<close>

definition mkLink :: "string \<Rightarrow> string \<Rightarrow> link" where
  "mkLink a b = \<lparr>source_id = StrId a, target_id = StrId b\<rparr>"

definition diamond :: "link list" where
  "diamond = [mkLink ''a'' ''d'', mkLink ''d'' ''e'', mkLink ''e'' ''c'', mkLink ''b'' ''a'',
              mkLink ''b'' ''c'']"

definition twoIslands :: "link list" where
  "twoIslands = [mkLink ''a'' ''b'', mkLink ''c'' ''d'']"







text \<open>
  The modules before any call, library calls that all return, and the states after one
  timeline, one vis.js network and two graphs have been initialised on the same container.
\<close>

definition newGraphModule :: "string list \<Rightarrow> graph_module" where
  "newGraphModule doc =
     \<lparr>gm_document = doc, graphInstances = [], liveGraphs = [], gm_nextObject = 0, gm_console = []\<rparr>"

definition allReturn :: lib_env where
  "allReturn = \<lparr>destroyOutcome = Returns, createOutcome = Returns, featuresOutcome = Returns,
                handlersOutcome = Returns\<rparr>"

definition oneTimeline :: timeline_module where
  "oneTimeline = snd (initializeEnhancedTimeline allReturn ''timeline'' None True
                        (newTimelineModule [''timeline'']))"

definition oneNetwork :: network_interop where
  "oneNetwork = snd (NetworkGraphInterop_initialize Returns ''graph'' None (newNetworkInterop [''graph'']))"

definition twoGraphs :: graph_module where
  "twoGraphs = snd (initializeNetworkGraph ''graph-2'' ''graph''
                 (snd (initializeNetworkGraph ''graph-1'' ''graph'' (newGraphModule [''graph'']))))"

text \<open>Two locations, the second with a latitude out of range, and a map without markers.\<close>

definition lusaka :: location where
  "lusaka = \<lparr>latitude = Num (Finite (- 15.4)), longitude = Num (Finite 28.3),
             riskScore = Num (Finite 7.5), loc_name = ''Lusaka''\<rparr>"

definition tooFarNorth :: location where
  "tooFarNorth = \<lparr>latitude = Num (Finite 91), longitude = Num (Finite 0),
                  riskScore = Undefined, loc_name = ''north''\<rparr>"

definition emptyMap :: geo_map where
  "emptyMap = \<lparr>markers = [], hasClusters = False, clusterLayer = [], mapLayer = [], fittedBounds = None\<rparr>"

text \<open>
  Two more locations with coordinates in range: one whose risk score is \<^verbatim>\<open>null\<close>, as a host
  serialises a score that is not set, and one without a score.
\<close>

definition ndola :: location where
  "ndola = \<lparr>latitude = Num (Finite (- 13)), longitude = Num (Finite 28.6),
            riskScore = Null, loc_name = ''Ndola''\<rparr>"

definition kitwe :: location where
  "kitwe = \<lparr>latitude = Num (Finite (- 12.8)), longitude = Num (Finite 28.2),
            riskScore = Undefined, loc_name = ''Kitwe''\<rparr>"

text \<open>Two links through a node whose id is the number 0.\<close>

definition zeroChain :: "link list" where
  "zeroChain = [\<lparr>source_id = NumId 1, target_id = NumId 0\<rparr>,
                \<lparr>source_id = NumId 0, target_id = NumId 2\<rparr>]"

section \<open>Properties\<close>

subsection \<open>Properties of the shortest-path search\<close>

text \<open>
  A step along a path, and the effect of one pass over the links: the nodes pushed are
  neighbours of the current node, and every truthy neighbour is visited afterwards.
\<close>

lemma isPath_snoc:
  "isPath links (p @ [n]) \<longleftrightarrow> p = [] \<or> (isPath links p \<and> adjacent links (last p) n)"
  by (induction links p rule: isPath.induct) auto

lemma adjacent_Cons:
  "adjacent (l # ls) u v \<longleftrightarrow>
     (source_id l = u \<and> target_id l = v) \<or> (target_id l = u \<and> source_id l = v) \<or> adjacent ls u v"
  by (auto simp: adjacent_def)

lemma adjacent_truthy:
  "\<forall>l\<in>set links. truthy (source_id l) \<and> truthy (target_id l) \<Longrightarrow> adjacent links u v \<Longrightarrow> truthy v"
  by (auto simp: adjacent_def list_ex_iff)

lemma adjacent_linkIds: "adjacent links u v \<Longrightarrow> u \<in> linkIds links \<and> v \<in> linkIds links"
  by (auto simp: adjacent_def list_ex_iff linkIds_def)

lemma visitLink_cases:
  "(\<exists>n. visitLink c p l (v, q) = (insert n v, q @ [p @ [n]]) \<and> truthy n
        \<and> ((source_id l = c \<and> target_id l = n) \<or> (target_id l = c \<and> source_id l = n))
        \<and> (\<forall>m. truthy m \<and> ((source_id l = c \<and> target_id l = m) \<or> (target_id l = c \<and> source_id l = m))
              \<longrightarrow> m \<in> insert n v))
    \<or> (visitLink c p l (v, q) = (v, q)
        \<and> (\<forall>m. truthy m \<and> ((source_id l = c \<and> target_id l = m) \<or> (target_id l = c \<and> source_id l = m))
              \<longrightarrow> m \<in> v))"
proof (cases "source_id l = c \<and> target_id l \<notin> v")
  case True
  then show ?thesis
    by (cases "truthy (target_id l)") (auto simp: visitLink_def)
next
  case False
  note first = this
  show ?thesis
  proof (cases "target_id l = c \<and> source_id l \<notin> v")
    case True
    then show ?thesis using first
      by (cases "truthy (source_id l)") (auto simp: visitLink_def)
  next
    case False
    then show ?thesis using first by (auto simp: visitLink_def)
  qed
qed

lemma fold_visitLink:
  "\<exists>ns. fold (visitLink c p) ls (v, q) = (v \<union> set ns, q @ map (\<lambda>n. p @ [n]) ns)
      \<and> (\<forall>n\<in>set ns. adjacent ls c n \<and> truthy n)
      \<and> (\<forall>n. truthy n \<and> adjacent ls c n \<longrightarrow> n \<in> v \<union> set ns)"
proof (induction ls arbitrary: v q)
  case Nil
  show ?case by (simp add: adjacent_def)
next
  case (Cons l ls)
  from visitLink_cases[of c p l v q]
  consider (push) n where "visitLink c p l (v, q) = (insert n v, q @ [p @ [n]])"
      "truthy n" "(source_id l = c \<and> target_id l = n) \<or> (target_id l = c \<and> source_id l = n)"
      "\<forall>m. truthy m \<and> ((source_id l = c \<and> target_id l = m) \<or> (target_id l = c \<and> source_id l = m))
          \<longrightarrow> m \<in> insert n v"
    | (skip) "visitLink c p l (v, q) = (v, q)"
      "\<forall>m. truthy m \<and> ((source_id l = c \<and> target_id l = m) \<or> (target_id l = c \<and> source_id l = m))
          \<longrightarrow> m \<in> v"
    by blast
  then show ?case
  proof cases
    case push
    from Cons.IH[of "insert n v" "q @ [p @ [n]]"] obtain ns where
      ns: "fold (visitLink c p) ls (insert n v, q @ [p @ [n]])
            = (insert n v \<union> set ns, (q @ [p @ [n]]) @ map (\<lambda>n. p @ [n]) ns)"
        "\<forall>n\<in>set ns. adjacent ls c n \<and> truthy n"
        "\<forall>m. truthy m \<and> adjacent ls c m \<longrightarrow> m \<in> insert n v \<union> set ns"
      by blast
    show ?thesis
    proof (intro exI[of _ "n # ns"] conjI)
      show "fold (visitLink c p) (l # ls) (v, q) = (v \<union> set (n # ns), q @ map (\<lambda>n. p @ [n]) (n # ns))"
        using push(1) ns(1) by simp
      show "\<forall>n\<in>set (n # ns). adjacent (l # ls) c n \<and> truthy n"
        using push(2,3) ns(2) by (auto simp: adjacent_Cons)
      show "\<forall>m. truthy m \<and> adjacent (l # ls) c m \<longrightarrow> m \<in> v \<union> set (n # ns)"
        using push(4) ns(3) by (auto simp: adjacent_Cons)
    qed
  next
    case skip
    from Cons.IH[of v q] obtain ns where
      ns: "fold (visitLink c p) ls (v, q) = (v \<union> set ns, q @ map (\<lambda>n. p @ [n]) ns)"
        "\<forall>n\<in>set ns. adjacent ls c n \<and> truthy n"
        "\<forall>m. truthy m \<and> adjacent ls c m \<longrightarrow> m \<in> v \<union> set ns"
      by blast
    show ?thesis
    proof (intro exI[of _ ns] conjI)
      show "fold (visitLink c p) (l # ls) (v, q) = (v \<union> set ns, q @ map (\<lambda>n. p @ [n]) ns)"
        using skip(1) ns(1) by simp
      show "\<forall>n\<in>set ns. adjacent (l # ls) c n \<and> truthy n"
        using ns(2) by (auto simp: adjacent_Cons)
      show "\<forall>m. truthy m \<and> adjacent (l # ls) c m \<longrightarrow> m \<in> v \<union> set ns"
        using skip(2) ns(3) by (auto simp: adjacent_Cons)
    qed
  qed
qed

text \<open>
  The invariant holds at the start and is kept by an iteration that does not return. Under
  it every path shorter than the paths still queued ends at a node that has already been
  taken from the queue, by a path at most as long.
\<close>

lemma bfs_inv_init: "bfs_inv links src tgt [] [[src]] {src}"
  by (simp add: bfs_inv_def)

lemma bfs_inv_short:
  assumes inv: "bfs_inv links src tgt done queue visited"
    and tr: "\<forall>l\<in>set links. truthy (source_id l) \<and> truthy (target_id l)"
    and w: "isPath links w" "hd w = src" "\<forall>p\<in>set queue. length w < length p"
  shows "\<exists>r\<in>set done. last r = last w \<and> length r \<le> length w"
proof -
  have ne: "w \<noteq> []" using w(1) by auto
  from ne w show ?thesis
  proof (induction w rule: rev_nonempty_induct)
    case (single x)
    then have "[src] \<in> set (done @ queue)" "x = src"
      using inv by (auto simp: bfs_inv_def)
    moreover have "[src] \<notin> set queue" using single by auto
    ultimately have "[src] \<in> set done" by simp
    then show ?case using \<open>x = src\<close> by (intro bexI[of _ "[src]"]) auto
  next
    case (snoc x xs)
    have path: "isPath links xs" and adj: "adjacent links (last xs) x"
      using snoc.prems(1) snoc.hyps by (auto simp: isPath_snoc)
    have "hd xs = src" using snoc.prems(2) snoc.hyps by simp
    moreover have "\<forall>p\<in>set queue. length xs < length p" using snoc.prems(3) by auto
    ultimately obtain r where r: "r \<in> set done" "last r = last xs" "length r \<le> length xs"
      using snoc.IH path by blast
    have "truthy x" using adjacent_truthy[OF tr adj] .
    with r adj inv obtain r' where r': "r' \<in> set (done @ queue)" "last r' = x"
        "length r' \<le> Suc (length r)"
      unfolding bfs_inv_def by metis
    have "r' \<notin> set queue" using snoc.prems(3) r'(3) r(3) by fastforce
    then show ?case using r' r(3) by auto
  qed
qed

lemma bfs_inv_step:
  assumes inv: "bfs_inv links src tgt done (path # queue) visited"
    and nt: "last path \<noteq> tgt"
  shows "bfs_inv links src tgt (done @ [path])
           (snd (fold (visitLink (last path) path) links (visited, queue)))
           (fst (fold (visitLink (last path) path) links (visited, queue)))"
proof -
  obtain ns where fold_eq: "fold (visitLink (last path) path) links (visited, queue)
        = (visited \<union> set ns, queue @ map (\<lambda>n. path @ [n]) ns)"
    and ns_adj: "\<forall>n\<in>set ns. adjacent links (last path) n \<and> truthy n"
    and ns_all: "\<forall>n. truthy n \<and> adjacent links (last path) n \<longrightarrow> n \<in> visited \<union> set ns"
    using fold_visitLink[of "last path" path links visited queue] by blast
  define old where "old = done @ path # queue"
  define news where "news = map (\<lambda>n. path @ [n]) ns"
  have A1: "\<forall>p\<in>set old. isPath links p \<and> hd p = src"
    and A2: "visited = last ` set old"
    and A3: "sorted (map length old)"
    and A4: "\<forall>p\<in>set (path # queue). \<forall>r\<in>set old. length r \<le> Suc (length p)"
    and A5: "\<forall>p\<in>set done. \<forall>n. truthy n \<and> adjacent links (last p) n \<longrightarrow>
        (\<exists>r\<in>set old. last r = n \<and> length r \<le> Suc (length p))"
    and A6: "\<forall>p\<in>set done. last p \<noteq> tgt"
    and A7: "[src] \<in> set old"
    using inv unfolding bfs_inv_def old_def by blast+
  have path: "isPath links path" "hd path = src" "path \<noteq> []"
    using A1 by (auto simp: old_def)
  have old_le: "\<forall>r\<in>set old. length r \<le> Suc (length path)"
    using A4 by simp
  have q_ge: "\<forall>p\<in>set queue. length path \<le> length p"
    using A3 by (auto simp: old_def sorted_append)
  have news_len: "\<forall>r\<in>set news. length r = Suc (length path)"
    by (auto simp: news_def)
  have news_last: "last ` set news = set ns"
    by (auto simp: news_def image_iff)
  have all_eq: "(done @ [path]) @ queue @ news = old @ news"
    by (simp add: old_def)
  have B1: "\<forall>p\<in>set (old @ news). isPath links p \<and> hd p = src"
    using A1 path ns_adj by (auto simp: news_def isPath_snoc)
  have B2: "visited \<union> set ns = last ` set (old @ news)"
    using A2 news_last by (simp add: image_Un)
  have "sorted (map length news)"
    by (simp add: news_def sorted_wrt_iff_nth_less sorted_map)
  then have B3: "sorted (map length (old @ news))"
    using A3 old_le news_len by (auto simp: sorted_append)
  have B4: "\<forall>p\<in>set (queue @ news). \<forall>r\<in>set (old @ news). length r \<le> Suc (length p)"
  proof (intro ballI)
    fix p r assume p: "p \<in> set (queue @ news)" and r: "r \<in> set (old @ news)"
    have "length r \<le> Suc (length path)" using r old_le news_len by auto
    moreover have "length path \<le> length p" using p q_ge news_len by auto
    ultimately show "length r \<le> Suc (length p)" by simp
  qed
  have B5: "\<forall>p\<in>set (done @ [path]). \<forall>n. truthy n \<and> adjacent links (last p) n \<longrightarrow>
        (\<exists>r\<in>set (old @ news). last r = n \<and> length r \<le> Suc (length p))"
  proof (intro ballI allI impI)
    fix p n assume p: "p \<in> set (done @ [path])" and n: "truthy n \<and> adjacent links (last p) n"
    show "\<exists>r\<in>set (old @ news). last r = n \<and> length r \<le> Suc (length p)"
    proof (cases "p \<in> set done")
      case True
      then show ?thesis using A5 n by fastforce
    next
      case False
      then have "p = path" using p by simp
      then have "n \<in> visited \<union> set ns" using ns_all n by simp
      then obtain r where "r \<in> set (old @ news)" "last r = n" unfolding B2 by auto
      moreover from this have "length r \<le> Suc (length path)" using old_le news_len by auto
      ultimately show ?thesis using \<open>p = path\<close> by blast
    qed
  qed
  have B6: "\<forall>p\<in>set (done @ [path]). last p \<noteq> tgt"
    using A6 nt by simp
  have B7: "[src] \<in> set (old @ news)"
    using A7 by simp
  show ?thesis
    unfolding bfs_inv_def fold_eq fst_conv snd_conv all_eq news_def[symmetric]
    using B1 B2 B3 B4 B5 B6 B7 by blast
qed

lemma bfs_correct:
  assumes tr: "\<forall>l\<in>set links. truthy (source_id l) \<and> truthy (target_id l)"
  shows "bfs_inv links src tgt done queue visited \<Longrightarrow>
    (case bfs links tgt visited queue of
       None \<Rightarrow> \<not> (\<exists>q. isPath links q \<and> hd q = src \<and> last q = tgt)
     | Some p \<Rightarrow> isPath links p \<and> hd p = src \<and> last p = tgt \<and>
         (\<forall>q. isPath links q \<and> hd q = src \<and> last q = tgt \<longrightarrow> length p \<le> length q))"
  using tr
proof (induction links tgt visited queue arbitrary: "done" rule: bfs.induct)
  case (1 links targetId visited)
  have "False" if q: "isPath links q" "hd q = src" "last q = targetId" for q
  proof -
    from bfs_inv_short[OF "1.prems"(1) "1.prems"(2) q(1,2)]
    obtain r where "r \<in> set done" "last r = last q" by auto
    then show False using "1.prems"(1) q(3) by (auto simp: bfs_inv_def)
  qed
  then show ?case by auto
next
  case (2 links targetId visited path queue)
  note inv = "2.prems"(1)
  have path: "isPath links path" "hd path = src" "path \<noteq> []"
    using inv by (auto simp: bfs_inv_def)
  show ?case
  proof (cases "last path = targetId")
    case True
    have "length path \<le> length q" if q: "isPath links q" "hd q = src" "last q = targetId" for q
    proof (rule ccontr)
      assume "\<not> length path \<le> length q"
      then have lt: "length q < length path" by simp
      have "sorted (map length (done @ path # queue))" using inv by (simp add: bfs_inv_def)
      then have "\<forall>p\<in>set (path # queue). length q < length p"
        using lt by (auto simp: sorted_append)
      from bfs_inv_short[OF inv "2.prems"(2) q(1,2) this]
      obtain r where "r \<in> set done" "last r = last q" by auto
      then show False using inv q(3) by (auto simp: bfs_inv_def)
    qed
    then show ?thesis using True path by simp
  next
    case False
    from bfs_inv_step[OF inv False]
    have "bfs_inv links src targetId (done @ [path])
           (snd (fold (visitLink (last path) path) links (visited, queue)))
           (fst (fold (visitLink (last path) path) links (visited, queue)))" .
    from "2.IH"(2)[OF path(3) False this "2.prems"(2)] show ?thesis
      using False path(3) by simp
  qed
qed

text \<open>
  Without any assumption on the ids: what the search returns is a path from the source to
  the target; and a path between two different nodes has both ends on links.
\<close>

lemma bfs_sound:
  "\<forall>p\<in>set queue. isPath links p \<and> hd p = src \<Longrightarrow> bfs links tgt visited queue = Some r
     \<Longrightarrow> isPath links r \<and> hd r = src \<and> last r = tgt"
proof (induction links tgt visited queue rule: bfs.induct)
  case (1 links targetId visited)
  then show ?case by simp
next
  case (2 links targetId visited path queue)
  have path: "isPath links path" "hd path = src" "path \<noteq> []"
    using "2.prems"(1) by auto
  show ?case
  proof (cases "last path = targetId")
    case True
    then show ?thesis using "2.prems" path by simp
  next
    case False
    obtain ns where fold_eq: "fold (visitLink (last path) path) links (visited, queue)
          = (visited \<union> set ns, queue @ map (\<lambda>n. path @ [n]) ns)"
      and ns_adj: "\<forall>n\<in>set ns. adjacent links (last path) n \<and> truthy n"
      using fold_visitLink[of "last path" path links visited queue] by blast
    have q': "\<forall>p\<in>set (snd (fold (visitLink (last path) path) links (visited, queue))).
        isPath links p \<and> hd p = src"
      unfolding fold_eq using "2.prems"(1) path ns_adj by (auto simp: isPath_snoc)
    have "bfs links targetId
             (fst (fold (visitLink (last path) path) links (visited, queue)))
             (snd (fold (visitLink (last path) path) links (visited, queue))) = Some r"
      using "2.prems"(2) False path(3) by simp
    from "2.IH"(2)[OF path(3) False q' this] show ?thesis .
  qed
qed

lemma isPath_ends_in_links:
  "isPath links p \<Longrightarrow> hd p \<noteq> last p \<Longrightarrow> hd p \<in> linkIds links \<and> last p \<in> linkIds links"
proof (induction links p rule: isPath.induct)
  case (1 links)
  then show ?case by simp
next
  case (2 links x)
  then show ?case by simp
next
  case (3 links x y r)
  have adj: "adjacent links x y" and rest: "isPath links (y # r)" using "3.prems"(1) by simp_all
  have x: "x \<in> linkIds links" and y: "y \<in> linkIds links" using adjacent_linkIds[OF adj] by simp_all
  show ?case
  proof (cases "hd (y # r) = last (y # r)")
    case True
    then show ?thesis using x y by simp
  next
    case False
    from "3.IH"[OF rest False] show ?thesis using x by simp
  qed
qed

text \<open>
  C5 (as the code has it). For links whose node ids are all truthy, that is neither 0 nor
  the empty string (\<^verbatim>\<open>loadData\<close> takes such an id for a missing one and replaces it), and
  nodes \<open>a\<close>, \<open>b\<close> joined by some path along the links taken in either direction, \<^verbatim>\<open>findShortestPath(a, b)\<close> returns a sequence of node ids that starts at \<open>a\<close>,
  ends at \<open>b\<close>, steps along links only, and is no longer than any other such path: its hop
  count is minimal. In particular the search terminates and does not return \<^verbatim>\<open>null\<close>.
\<close>

theorem findShortestPath_minimum_hops:
  assumes tr: "\<forall>l\<in>set links. truthy (source_id l) \<and> truthy (target_id l)"
    and w: "pathBetween links a b w"
  shows "\<exists>p. findShortestPath links a b = Some p \<and> pathBetween links a b p
           \<and> (\<forall>q. pathBetween links a b q \<longrightarrow> length p \<le> length q)"
proof -
  from bfs_correct[OF tr bfs_inv_init[of links a b]]
  have res: "case findShortestPath links a b of
       None \<Rightarrow> \<not> (\<exists>q. isPath links q \<and> hd q = a \<and> last q = b)
     | Some p \<Rightarrow> isPath links p \<and> hd p = a \<and> last p = b \<and>
         (\<forall>q. isPath links q \<and> hd q = a \<and> last q = b \<longrightarrow> length p \<le> length q)"
    by (simp add: findShortestPath_def)
  show ?thesis
  proof (cases "findShortestPath links a b")
    case None
    then show ?thesis using res w by (auto simp: pathBetween_def)
  next
    case (Some p)
    then show ?thesis using res by (auto simp: pathBetween_def)
  qed
qed

text \<open>
  In the diamond the search from a to c returns the two-hop path through b, although the
  links of the three-hop path through d and e come first in the array.
\<close>

theorem findShortestPath_minimum_hops_witness:
  "list_all (\<lambda>l. truthy (source_id l) \<and> truthy (target_id l)) diamond
   \<and> pathBetween diamond (StrId ''a'') (StrId ''c'') [StrId ''a'', StrId ''d'', StrId ''e'', StrId ''c'']
   \<and> findShortestPath diamond (StrId ''a'') (StrId ''c'') = Some [StrId ''a'', StrId ''b'', StrId ''c'']
   \<and> pathBetween diamond (StrId ''a'') (StrId ''c'') [StrId ''a'', StrId ''b'', StrId ''c'']"
proof -
  have tr: "\<forall>l\<in>set diamond. truthy (source_id l) \<and> truthy (target_id l)"
    by (simp add: diamond_def mkLink_def)
  have w: "pathBetween diamond (StrId ''a'') (StrId ''c'') [StrId ''a'', StrId ''d'', StrId ''e'', StrId ''c'']"
    by (simp add: pathBetween_def diamond_def mkLink_def adjacent_def)
  have r: "findShortestPath diamond (StrId ''a'') (StrId ''c'') = Some [StrId ''a'', StrId ''b'', StrId ''c'']"
    by (simp add: findShortestPath_def diamond_def mkLink_def visitLink_def Let_def)
  from findShortestPath_minimum_hops[OF tr w] r
  have "pathBetween diamond (StrId ''a'') (StrId ''c'') [StrId ''a'', StrId ''b'', StrId ''c'']"
    by auto
  then show ?thesis using tr w r by (simp add: list_all_iff)
qed

text \<open>
  C5 as stated fails: the search queues a neighbour only when its id is truthy
  (\<^verbatim>\<open>if (neighbor)\<close>), so a node whose id is 0 is never entered, and of the path from 1
  through 0 to 2 nothing is found.
\<close>

theorem findShortestPath_skips_falsy_id:
  "pathBetween zeroChain (NumId 1) (NumId 2) [NumId 1, NumId 0, NumId 2]
   \<and> findShortestPath zeroChain (NumId 1) (NumId 2) = None"
  by (simp add: pathBetween_def zeroChain_def adjacent_def findShortestPath_def visitLink_def
      Let_def)

text \<open>
  C1 (as the code has it). When no path joins \<open>a\<close> and \<open>b\<close>, the method returns \<^verbatim>\<open>null\<close>,
  here \<open>None\<close>, and the wrapper of criminalNetworkIntelligenceInterop.js turns that into the
  empty sequence; this covers two different ids of which one is not a node of the graph.
  For \<open>a = b\<close> the method returns \<open>[a]\<close>, whether or not \<open>a\<close> is a node.
\<close>

theorem findShortestPath_null_when_unconnected:
  "(\<not> (\<exists>p. pathBetween links a b p) \<longrightarrow>
      findShortestPath links a b = None
      \<and> criminalNetwork_findShortestPath (Some links) a b = [])
   \<and> (linkIds links \<subseteq> set nodeIds \<and> a \<noteq> b \<and> (a \<notin> set nodeIds \<or> b \<notin> set nodeIds) \<longrightarrow>
      findShortestPath links a b = None)
   \<and> findShortestPath links a a = Some [a]"
proof -
  have sound: "pathBetween links a b r" if "findShortestPath links a b = Some r" for r
    using bfs_sound[of "[[a]]" links a b "{a}" r] that
    by (simp add: findShortestPath_def pathBetween_def)
  have none: "findShortestPath links a b = None" if "\<not> (\<exists>p. pathBetween links a b p)"
    using that sound by (cases "findShortestPath links a b") auto
  have absent: "\<not> (\<exists>p. pathBetween links a b p)"
    if "linkIds links \<subseteq> set nodeIds \<and> a \<noteq> b \<and> (a \<notin> set nodeIds \<or> b \<notin> set nodeIds)"
  proof
    assume "\<exists>p. pathBetween links a b p"
    then obtain p where p: "isPath links p" "hd p = a" "last p = b"
      by (auto simp: pathBetween_def)
    then have "a \<in> linkIds links \<and> b \<in> linkIds links"
      using isPath_ends_in_links[of links p] that by auto
    then show False using that by auto
  qed
  show ?thesis
    using none absent by (auto simp: criminalNetwork_findShortestPath_def findShortestPath_def)
qed

theorem findShortestPath_null_when_unconnected_witness:
  "\<not> (\<exists>p. pathBetween twoIslands (StrId ''a'') (StrId ''c'') p)
   \<and> findShortestPath twoIslands (StrId ''a'') (StrId ''c'') = None
   \<and> criminalNetwork_findShortestPath (Some twoIslands) (StrId ''a'') (StrId ''c'') = []
   \<and> linkIds twoIslands \<subseteq> set [StrId ''a'', StrId ''b'', StrId ''c'', StrId ''d'']
   \<and> findShortestPath twoIslands (StrId ''a'') (StrId ''zz'') = None
   \<and> findShortestPath twoIslands (StrId ''zz'') (StrId ''zz'') = Some [StrId ''zz'']"
proof -
  have r: "findShortestPath twoIslands (StrId ''a'') (StrId ''c'') = None"
    by (simp add: findShortestPath_def twoIslands_def mkLink_def visitLink_def Let_def)
  have tr: "\<forall>l\<in>set twoIslands. truthy (source_id l) \<and> truthy (target_id l)"
    by (simp add: twoIslands_def mkLink_def)
  have un: "\<not> (\<exists>p. pathBetween twoIslands (StrId ''a'') (StrId ''c'') p)"
  proof
    assume "\<exists>p. pathBetween twoIslands (StrId ''a'') (StrId ''c'') p"
    then obtain p where "pathBetween twoIslands (StrId ''a'') (StrId ''c'') p" ..
    then have p: "isPath twoIslands p \<and> hd p = StrId ''a'' \<and> last p = StrId ''c''"
      by (simp add: pathBetween_def)
    have "case findShortestPath twoIslands (StrId ''a'') (StrId ''c'') of
        None \<Rightarrow> \<not> (\<exists>q. isPath twoIslands q \<and> hd q = StrId ''a'' \<and> last q = StrId ''c'')
      | Some p \<Rightarrow> isPath twoIslands p \<and> hd p = StrId ''a'' \<and> last p = StrId ''c'' \<and>
          (\<forall>q. isPath twoIslands q \<and> hd q = StrId ''a'' \<and> last q = StrId ''c'' \<longrightarrow> length p \<le> length q)"
      unfolding findShortestPath_def
      by (rule bfs_correct[OF tr bfs_inv_init[of twoIslands "StrId ''a''" "StrId ''c''"]])
    then have "\<not> (\<exists>q. isPath twoIslands q \<and> hd q = StrId ''a'' \<and> last q = StrId ''c'')"
      unfolding r by simp
    then show False using p by blast
  qed
  have ids: "linkIds twoIslands \<subseteq> set [StrId ''a'', StrId ''b'', StrId ''c'', StrId ''d'']"
    by (simp add: linkIds_def twoIslands_def mkLink_def)
  from findShortestPath_null_when_unconnected[of twoIslands "StrId ''a''" "StrId ''c''"
      "[StrId ''a'', StrId ''b'', StrId ''c'', StrId ''d'']"]
    findShortestPath_null_when_unconnected[of twoIslands "StrId ''a''" "StrId ''zz''"
      "[StrId ''a'', StrId ''b'', StrId ''c'', StrId ''d'']"]
    findShortestPath_null_when_unconnected[of twoIslands "StrId ''zz''" "StrId ''zz''"
      "[StrId ''a'', StrId ''b'', StrId ''c'', StrId ''d'']"]
    un ids
  show ?thesis by simp
qed

text \<open>
  C1 as stated fails: between the two components the method returns \<^verbatim>\<open>null\<close>, not an empty
  sequence, and for an id that is not in the graph at all it returns that id as a path.
\<close>

theorem findShortestPath_returns_null:
  "findShortestPath twoIslands (StrId ''a'') (StrId ''c'') = None
   \<and> findShortestPath twoIslands (StrId ''a'') (StrId ''c'') \<noteq> Some []
   \<and> findShortestPath twoIslands (StrId ''zz'') (StrId ''zz'') = Some [StrId ''zz'']"
  by (simp add: findShortestPath_def twoIslands_def mkLink_def visitLink_def Let_def)

subsection \<open>Properties of loadData\<close>

lemma getNodeColor_id [simp]: "getNodeColor (n\<lparr>n_id := x\<rparr>) = getNodeColor n"
  by (simp add: getNodeColor_def riskScoreOf_def)

lemma getNodeSize_id_color [simp]:
  "getNodeSize g (n\<lparr>n_id := x\<rparr>) = getNodeSize g n"
  "getNodeSize g (n\<lparr>n_color := c\<rparr>) = getNodeSize g n"
  by (simp_all add: getNodeSize_def riskScoreOf_def)


lemma processLink_loaded: "linkLoaded l (snd (processLink l))"
  by (simp add: processLink_def Let_def linkLoaded_def sameEnd_def)

lemma processLink_ends:
  "l_source (snd (processLink l)) = l_source l \<and> l_target (snd (processLink l)) = l_target l"
  by (simp add: processLink_def Let_def)


text \<open>
  After the first loop every node has a truthy id, as long as the random strings are not
  empty.
\<close>

lemma processNodes_truthy_ids:
  "\<forall>k. rnd k \<noteq> [] \<Longrightarrow> n \<in> set (processNodes g rnd k ns) \<Longrightarrow> truthyId (n_id n)"
  by (induction ns arbitrary: k) (auto simp: Let_def split: if_splits)

text \<open>
  The link force: an end is resolved to the node of the same id or left as it is; the loop
  changes nothing else; it runs to the end exactly when no link is dangling, and then every
  end is a node object.
\<close>

lemma resolveEnd_sameEnd: "resolveEnd ns e = Inr e' \<Longrightarrow> sameEnd e e'"
  by (cases e) (auto simp: sameEnd_def split: if_splits)

lemma resolveEnd_Inr_iff: "(\<exists>e'. resolveEnd ns e = Inr e' \<and> e' \<noteq> EndNull) \<longleftrightarrow> resolves ns e"
  by (cases e) auto


lemma resolveLinks_kept:
  "list_all2 (\<lambda>l l'. sameEnd (l_source l) (l_source l') \<and> sameEnd (l_target l) (l_target l')
       \<and> l_color l' = l_color l \<and> l_width l' = l_width l)
     ls (snd (resolveLinks ns ls))"
proof (induction ls)
  case Nil
  show ?case by simp
next
  case (Cons l ls)
  have refl: "list_all2 (\<lambda>l l'. sameEnd (l_source l) (l_source l') \<and> sameEnd (l_target l) (l_target l')
       \<and> l_color l' = l_color l \<and> l_width l' = l_width l) ls ls"
    by (simp add: list_all2_same sameEnd_def)
  show ?case
  proof (cases "resolveEnd ns (l_source l)")
    case (Inl e)
    then show ?thesis using refl by (simp add: sameEnd_def)
  next
    case (Inr s)
    note s = this
    show ?thesis
    proof (cases "resolveEnd ns (l_target l)")
      case (Inl e)
      then show ?thesis using s refl resolveEnd_sameEnd[OF s] by (simp add: sameEnd_def)
    next
      case (Inr t)
      then show ?thesis
        using s refl Cons.IH resolveEnd_sameEnd[OF s] resolveEnd_sameEnd[OF Inr]
        by (auto split: prod.splits)
    qed
  qed
qed

lemma resolveLinks_ok_iff: "fst (resolveLinks ns ls) = None \<longleftrightarrow> \<not> list_ex (dangling ns) ls"
proof (induction ls)
  case Nil
  show ?case by simp
next
  case (Cons l ls)
  show ?case
  proof (cases "resolves ns (l_source l) \<and> resolves ns (l_target l)")
    case True
    then obtain s t where "resolveEnd ns (l_source l) = Inr s" "s \<noteq> EndNull"
      "resolveEnd ns (l_target l) = Inr t" "t \<noteq> EndNull"
      using resolveEnd_Inr_iff by metis
    then show ?thesis using Cons.IH True
      by (auto simp: dangling_def split: prod.splits)
  next
    case False
    then have d: "dangling ns l" by (simp add: dangling_def)
    have "fst (resolveLinks ns (l # ls)) \<noteq> None"
    proof (cases "resolveEnd ns (l_source l)")
      case (Inl e)
      then show ?thesis by simp
    next
      case (Inr s)
      note s = this
      show ?thesis
      proof (cases "resolveEnd ns (l_target l)")
        case (Inl e)
        then show ?thesis using s by simp
      next
        case (Inr t)
        have "s = EndNull \<or> t = EndNull"
          using False s Inr resolveEnd_Inr_iff by metis
        then show ?thesis using s Inr by auto
      qed
    qed
    then show ?thesis using d by simp
  qed
qed


lemma list_all2_compose:
  "list_all2 P xs ys \<Longrightarrow> list_all2 Q ys zs \<Longrightarrow> (\<And>x y z. P x y \<Longrightarrow> Q y z \<Longrightarrow> R x z)
     \<Longrightarrow> list_all2 R xs zs"
proof (induction arbitrary: zs rule: list_all2_induct)
  case Nil
  then show ?case by simp
next
  case (Cons x xs y ys)
  then show ?case by (cases zs) auto
qed

lemma sameEnd_trans: "sameEnd a b \<Longrightarrow> sameEnd b c \<Longrightarrow> sameEnd a c"
  by (auto simp: sameEnd_def)

lemma loadData_result:
  "NetworkGraph_loadData rnd data g =
      ((case fst (resolveLinks (processNodes g rnd 0 (dataNodes data))
                    (map snd (map processLink (dataLinks data)))) of
          None \<Rightarrow> Inr () | Some e \<Rightarrow> Inl e),
       g\<lparr>g_nodes := processNodes g rnd 0 (dataNodes data),
         g_links := snd (resolveLinks (processNodes g rnd 0 (dataNodes data))
                      (map snd (map processLink (dataLinks data))))\<rparr>,
       concat (map fst (map processLink (dataLinks data))))"
  by (simp add: NetworkGraph_loadData_def Let_def)

lemma loadData_links_loaded:
  "list_all2 linkLoaded (dataLinks data) (g_links (fst (snd (NetworkGraph_loadData rnd data g))))"
proof -
  have p1: "list_all2 linkLoaded (dataLinks data) (map snd (map processLink (dataLinks data)))"
    by (simp add: list_all2_conv_all_nth processLink_loaded)
  have "list_all2 linkLoaded (dataLinks data)
      (snd (resolveLinks (processNodes g rnd 0 (dataNodes data))
              (map snd (map processLink (dataLinks data)))))"
    by (rule list_all2_compose[OF p1 resolveLinks_kept])
      (auto simp: linkLoaded_def intro: sameEnd_trans)
  then show ?thesis by (simp add: loadData_result)
qed

lemma loadData_returns_iff:
  "fst (NetworkGraph_loadData rnd data g) = Inr () \<longleftrightarrow>
     \<not> list_ex (dangling (g_nodes (fst (snd (NetworkGraph_loadData rnd data g))))) (dataLinks data)"
proof -
  let ?N = "processNodes g rnd 0 (dataNodes data)"
  let ?P = "map snd (map processLink (dataLinks data))"
  have f: "fst (NetworkGraph_loadData rnd data g) = Inr () \<longleftrightarrow> fst (resolveLinks ?N ?P) = None"
    by (cases "fst (resolveLinks ?N ?P)") (simp_all add: loadData_result)
  have n: "g_nodes (fst (snd (NetworkGraph_loadData rnd data g))) = ?N"
    by (simp add: loadData_result)
  have dang: "list_ex (dangling ?N) ?P = list_ex (dangling ?N) (dataLinks data)"
    by (simp add: list_ex_iff dangling_def processLink_ends)
  show ?thesis
    unfolding f n using resolveLinks_ok_iff[of ?N ?P] dang by simp
qed





text \<open>
  A graph that \<^verbatim>\<open>loadData\<close> has loaded from data whose link ends are ids has only truthy
  ids on its links, as long as the random strings are not empty: an id that is 0 or empty
  is replaced on its node, so that no link end can name it.
\<close>

lemma loaded_links_truthy:
  assumes ok: "fst (NetworkGraph_loadData rnd data g) = Inr ()"
    and rnd: "\<forall>k. rnd k \<noteq> []"
    and ids: "\<forall>l\<in>set (dataLinks data). \<forall>i. l_source l \<noteq> EndNode i \<and> l_target l \<noteq> EndNode i"
    and l: "l \<in> set (graphLinks (fst (snd (NetworkGraph_loadData rnd data g))))"
  shows "truthy (source_id l) \<and> truthy (target_id l)"
proof -
  let ?g = "fst (snd (NetworkGraph_loadData rnd data g))"
  have nodes: "g_nodes ?g = processNodes g rnd 0 (dataNodes data)"
    by (simp add: NetworkGraph_loadData_def Let_def)
  from l obtain l' where l': "l' \<in> set (g_links ?g)"
    and ends: "l_source l' = EndNode (source_id l)" "l_target l' = EndNode (target_id l)"
    by (auto simp: graphLinks_def split: link_end.splits)
  have kept: "list_all2 linkLoaded (dataLinks data) (g_links ?g)"
    by (rule loadData_links_loaded)
  have nd: "\<not> list_ex (dangling (g_nodes ?g)) (dataLinks data)"
    using ok loadData_returns_iff by blast
  from l' obtain i where i: "i < length (g_links ?g)" "l' = g_links ?g ! i"
    by (auto simp: in_set_conv_nth)
  have len: "length (dataLinks data) = length (g_links ?g)"
    using kept by (rule list_all2_lengthD)
  have l0: "dataLinks data ! i \<in> set (dataLinks data)" "linkLoaded (dataLinks data ! i) l'"
    using i len list_all2_nthD2[OF kept i(1)] by simp_all
  have no: "l_source (dataLinks data ! i) \<noteq> EndNode (source_id l)"
    "l_target (dataLinks data ! i) \<noteq> EndNode (target_id l)"
    using ids l0(1) by blast+
  have "sameEnd (l_source (dataLinks data ! i)) (EndNode (source_id l))"
    "sameEnd (l_target (dataLinks data ! i)) (EndNode (target_id l))"
    using l0(2) ends by (simp_all add: linkLoaded_def)
  then have "l_source (dataLinks data ! i) = EndId (source_id l)"
    "l_target (dataLinks data ! i) = EndId (target_id l)"
    using no by (auto simp: sameEnd_def)
  moreover have "resolves (g_nodes ?g) (l_source (dataLinks data ! i))"
    "resolves (g_nodes ?g) (l_target (dataLinks data ! i))"
    using nd l0(1) by (auto simp: list_ex_iff dangling_def)
  ultimately obtain n m where "n \<in> set (g_nodes ?g)" "n_id n = Some (source_id l)"
    "m \<in> set (g_nodes ?g)" "n_id m = Some (target_id l)"
    by auto
  then show ?thesis
    using processNodes_truthy_ids[OF rnd, of _ g 0 "dataNodes data"] nodes
    by (metis truthyId.simps(2))
qed

subsection \<open>Properties of the registries\<close>

lemma update_fresh_key: "k \<notin> fst ` set al \<Longrightarrow> AList.update k v al = al @ [(k, v)]"
  by (induction al) auto

lemma map_of_delete_same: "map_of (AList.delete k al) k = None"
  by (simp add: AList.delete_conv')

lemma oneTimeline_eq:
  "oneTimeline = (newTimelineModule [''timeline''])
      \<lparr>timelineInstances := [(''timeline'', 0)], liveTimelines := [(0, ''timeline'')],
       tm_nextObject := 1,
       tm_console := [(Log, ''Enhanced timeline initialized successfully: timeline'')]\<rparr>"
  by (simp add: oneTimeline_def initializeEnhancedTimeline_def newTimelineModule_def allReturn_def
      destroyExisting_def TimelineEnhancements_initialize_def new_Timeline_def tm_print_def Let_def)

text \<open>
  What a successful \<^verbatim>\<open>initializeEnhancedTimeline\<close> did to the registry and to the live
  timelines, and that it keeps them consistent.
\<close>

lemma initializeEnhancedTimeline_success:
  assumes "initializeEnhancedTimeline env c r u w = (True, w')"
  shows "timelineInstances w' = AList.update c (tm_nextObject w) (AList.delete c (timelineInstances w))"
    and "liveTimelines w' =
           filter (\<lambda>(t, k). map_of (timelineInstances w) c \<noteq> Some t) (liveTimelines w)
           @ [(tm_nextObject w, c)]"
    and "tm_nextObject w' = Suc (tm_nextObject w)"
proof -
  define w0 where "w0 = (case r of None \<Rightarrow> w | Some x \<Rightarrow> w\<lparr>dotNetReference := Some x\<rparr>)"
  have w0: "timelineInstances w0 = timelineInstances w" "liveTimelines w0 = liveTimelines w"
    "tm_nextObject w0 = tm_nextObject w"
    by (simp_all add: w0_def split: option.split)
  have pre: "visDefined w0" "c \<in> set (tm_document w0)"
    using assms unfolding initializeEnhancedTimeline_def w0_def[symmetric] Let_def
    by (auto split: if_splits)
  obtain w1 where d: "destroyExisting env c w0 = (Inr (), w1)"
    using assms pre unfolding initializeEnhancedTimeline_def w0_def[symmetric] Let_def
    by (cases "destroyExisting env c w0") (auto split: sum.splits)
  have w1: "timelineInstances w1 = AList.delete c (timelineInstances w)"
    "liveTimelines w1 = filter (\<lambda>(t, k). map_of (timelineInstances w) c \<noteq> Some t) (liveTimelines w)"
    "tm_nextObject w1 = tm_nextObject w" "tm_document w1 = tm_document w0"
  proof -
    show "timelineInstances w1 = AList.delete c (timelineInstances w)"
      "tm_nextObject w1 = tm_nextObject w" "tm_document w1 = tm_document w0"
      using d w0 unfolding destroyExisting_def
      by (auto split: option.splits lib_outcome.splits simp: AList.delete_id map_of_eq_None_iff)
    show "liveTimelines w1
        = filter (\<lambda>(t, k). map_of (timelineInstances w) c \<noteq> Some t) (liveTimelines w)"
    proof (cases "map_of (timelineInstances w) c")
      case None
      then show ?thesis using d w0 by (simp add: destroyExisting_def)
    next
      case (Some x)
      then have "liveTimelines w1 = filter (\<lambda>(t, k). t \<noteq> x) (liveTimelines w)"
        using d w0 by (auto simp: destroyExisting_def split: lib_outcome.splits)
      also have "\<dots> = filter (\<lambda>(t, k). Some x \<noteq> Some t) (liveTimelines w)"
        by (rule filter_cong) auto
      finally show ?thesis using Some by simp
    qed
  qed
  have cr: "createOutcome env = Returns"
    using assms pre d unfolding initializeEnhancedTimeline_def w0_def[symmetric] Let_def
    by (auto simp: TimelineEnhancements_initialize_def new_Timeline_def
        split: if_splits lib_outcome.splits)
  define w2 where "w2 = w1\<lparr>liveTimelines := liveTimelines w1 @ [(tm_nextObject w1, c)],
             tm_nextObject := Suc (tm_nextObject w1)\<rparr>"
  have w': "w' = tm_print Log (''Enhanced timeline initialized successfully: '' @ c)
      (w2\<lparr>timelineInstances := AList.update c (tm_nextObject w1) (timelineInstances w2)\<rparr>)"
    using assms pre d cr w1(4)
    unfolding initializeEnhancedTimeline_def w0_def[symmetric] Let_def w2_def
    by (auto simp: TimelineEnhancements_initialize_def new_Timeline_def
        split: if_splits lib_outcome.splits)
  show "timelineInstances w' = AList.update c (tm_nextObject w) (AList.delete c (timelineInstances w))"
    and "liveTimelines w' =
           filter (\<lambda>(t, k). map_of (timelineInstances w) c \<noteq> Some t) (liveTimelines w)
           @ [(tm_nextObject w, c)]"
    and "tm_nextObject w' = Suc (tm_nextObject w)"
    unfolding w' using w1 by (simp_all add: tm_print_def w2_def)
qed

lemma consistent_after_success:
  assumes con: "consistent w"
    and reg: "timelineInstances w' = AList.update c (tm_nextObject w) (AList.delete c (timelineInstances w))"
    and live: "liveTimelines w' =
           filter (\<lambda>(t, k). map_of (timelineInstances w) c \<noteq> Some t) (liveTimelines w)
           @ [(tm_nextObject w, c)]"
    and nxt: "tm_nextObject w' = Suc (tm_nextObject w)"
  shows "consistent w'"
    and "liveTimelinesOn w' c = [tm_nextObject w]"
    and "map_of (timelineInstances w') c = Some (tm_nextObject w)"
    and "filter (\<lambda>(k, t). k = c) (timelineInstances w') = [(c, tm_nextObject w)]"
    and "\<forall>t. map_of (timelineInstances w) c = Some t \<longrightarrow> t \<notin> fst ` set (liveTimelines w')"
proof -
  let ?reg = "timelineInstances w" and ?live = "liveTimelines w" and ?h = "tm_nextObject w"
  have dk: "distinct (map fst ?reg)" and dl: "distinct (map fst ?live)"
    and eq: "set ?live = (\<lambda>(k, t). (t, k)) ` set ?reg"
    and bound: "\<forall>(t, k)\<in>set ?live. t < ?h"
    using con by (auto simp: consistent_def)
  have fresh: "?h \<notin> fst ` set ?live" using bound by force
  have keep: "map_of ?reg c \<noteq> Some t \<longleftrightarrow> k \<noteq> c" if "(t, k) \<in> set ?live" for t k
  proof
    assume "map_of ?reg c \<noteq> Some t"
    moreover have "(k, t) \<in> set ?reg" using that eq by auto
    ultimately show "k \<noteq> c" using dk by auto
  next
    assume "k \<noteq> c"
    show "map_of ?reg c \<noteq> Some t"
    proof
      assume "map_of ?reg c = Some t"
      then have "(c, t) \<in> set ?reg" by (rule map_of_SomeD)
      then have "(t, c) \<in> set ?live" using eq by auto
      with that dl have "k = c" by (meson eq_key_imp_eq_value)
      with \<open>k \<noteq> c\<close> show False by simp
    qed
  qed
  have live': "liveTimelines w' = filter (\<lambda>(t, k). k \<noteq> c) ?live @ [(?h, c)]"
    unfolding live using keep by (auto intro!: filter_cong)
  have del: "AList.delete c ?reg = filter (\<lambda>(k, t). k \<noteq> c) ?reg"
    unfolding AList.delete_eq by (rule filter_cong) auto
  have notin: "c \<notin> fst ` set (AList.delete c ?reg)"
    by (simp add: del) auto
  have reg': "timelineInstances w' = filter (\<lambda>(k, t). k \<noteq> c) ?reg @ [(c, ?h)]"
    unfolding reg using update_fresh_key[OF notin] by (simp add: del)
  have d1: "distinct (map fst (timelineInstances w'))"
    unfolding reg' using dk by (auto simp: distinct_map_filter)
  have d2: "distinct (map fst (liveTimelines w'))"
    unfolding live' using dl fresh by (auto simp: distinct_map_filter)
  have s: "set (liveTimelines w') = (\<lambda>(k, t). (t, k)) ` set (timelineInstances w')"
    unfolding live' reg' using eq by auto
  have b: "\<forall>(t, k)\<in>set (liveTimelines w'). t < tm_nextObject w'"
    unfolding live' nxt using bound by auto
  show "consistent w'"
    using d1 d2 s b by (simp add: consistent_def)
  show "liveTimelinesOn w' c = [?h]"
    unfolding liveTimelinesOn_def live' by (auto simp: filter_empty_conv)
  show "map_of (timelineInstances w') c = Some ?h"
    unfolding reg by (simp add: update_conv')
  have "filter (\<lambda>(k, t). k = c) (filter (\<lambda>(k, t). k \<noteq> c) ?reg) = []"
    by (auto simp: filter_empty_conv)
  then show "filter (\<lambda>(k, t). k = c) (timelineInstances w') = [(c, ?h)]"
    unfolding reg' by simp
  show "\<forall>t. map_of ?reg c = Some t \<longrightarrow> t \<notin> fst ` set (liveTimelines w')"
  proof (intro allI impI)
    fix t assume t: "map_of ?reg c = Some t"
    then have "(t, c) \<in> set ?live" using eq by (auto dest: map_of_SomeD)
    then have "t < ?h" using bound by auto
    moreover have "k = c" if "(t, k) \<in> set ?live" for k
      using that t keep by auto
    ultimately show "t \<notin> fst ` set (liveTimelines w')"
      unfolding live' by auto
  qed
qed

text \<open>
  C2 (as the code has it). In the timeline module, whose registry is keyed by the container
  id: from a consistent state, when \<^verbatim>\<open>initializeEnhancedTimeline\<close> succeeds twice on the same
  container, the first timeline is torn down by the second call, exactly one timeline is alive
  on the container afterwards (the second), and the registry has exactly one entry for the
  container. \<^verbatim>\<open>initializeNetworkGraph\<close> has no tear-down: each successful call adds one more
  live graph on the container and registers it under the generated id.
\<close>

theorem initialize_twice_one_live_timeline:
  "(consistent w \<and> initializeEnhancedTimeline env1 c r1 u1 w = (True, w1)
      \<and> initializeEnhancedTimeline env2 c r2 u2 w1 = (True, w2) \<longrightarrow>
        liveTimelinesOn w1 c = [tm_nextObject w]
      \<and> liveTimelinesOn w2 c = [tm_nextObject w1]
      \<and> tm_nextObject w \<noteq> tm_nextObject w1
      \<and> tm_nextObject w \<notin> fst ` set (liveTimelines w2)
      \<and> filter (\<lambda>(k, t). k = c) (timelineInstances w2) = [(c, tm_nextObject w1)]
      \<and> consistent w2)
   \<and> (c \<in> set (gm_document m) \<longrightarrow>
        fst (initializeNetworkGraph graphId c m) = Inr graphId
      \<and> liveGraphsOn (snd (initializeNetworkGraph graphId c m)) c = liveGraphsOn m c @ [gm_nextObject m]
      \<and> map_of (graphInstances (snd (initializeNetworkGraph graphId c m))) graphId
          = Some (gm_nextObject m))"
proof (intro conjI impI)
  assume a: "consistent w \<and> initializeEnhancedTimeline env1 c r1 u1 w = (True, w1)
      \<and> initializeEnhancedTimeline env2 c r2 u2 w1 = (True, w2)"
  then have con: "consistent w"
    and i1: "initializeEnhancedTimeline env1 c r1 u1 w = (True, w1)"
    and i2: "initializeEnhancedTimeline env2 c r2 u2 w1 = (True, w2)"
    by simp_all
  note s1 = initializeEnhancedTimeline_success[OF i1]
  note c1 = consistent_after_success[OF con s1]
  note s2 = initializeEnhancedTimeline_success[OF i2]
  note c2 = consistent_after_success[OF c1(1) s2]
  show "liveTimelinesOn w1 c = [tm_nextObject w]" by (rule c1(2))
  show "liveTimelinesOn w2 c = [tm_nextObject w1]" by (rule c2(2))
  show "tm_nextObject w \<noteq> tm_nextObject w1" using s1(3) by simp
  show "tm_nextObject w \<notin> fst ` set (liveTimelines w2)" using c2(5) c1(3) by simp
  show "filter (\<lambda>(k, t). k = c) (timelineInstances w2) = [(c, tm_nextObject w1)]" by (rule c2(4))
  show "consistent w2" by (rule c2(1))
next
  assume "c \<in> set (gm_document m)"
  then show "fst (initializeNetworkGraph graphId c m) = Inr graphId"
    and "liveGraphsOn (snd (initializeNetworkGraph graphId c m)) c = liveGraphsOn m c @ [gm_nextObject m]"
    and "map_of (graphInstances (snd (initializeNetworkGraph graphId c m))) graphId
          = Some (gm_nextObject m)"
    by (simp_all add: initializeNetworkGraph_def new_NetworkGraph_def liveGraphsOn_def update_conv')
qed

theorem initialize_twice_one_live_timeline_witness:
  "consistent (newTimelineModule [''timeline''])
   \<and> fst (initializeEnhancedTimeline allReturn ''timeline'' None True (newTimelineModule [''timeline'']))
       = True
   \<and> fst (initializeEnhancedTimeline allReturn ''timeline'' None True oneTimeline) = True
   \<and> liveTimelinesOn oneTimeline ''timeline'' = [0]
   \<and> liveTimelinesOn (snd (initializeEnhancedTimeline allReturn ''timeline'' None True oneTimeline))
       ''timeline'' = [1]
   \<and> timelineInstances (snd (initializeEnhancedTimeline allReturn ''timeline'' None True oneTimeline))
       = [(''timeline'', 1)]
   \<and> ''graph'' \<in> set (gm_document (newGraphModule [''graph'']))
   \<and> liveGraphsOn (snd (initializeNetworkGraph ''graph-1'' ''graph'' (newGraphModule [''graph''])))
       ''graph'' = [0]"
proof -
  let ?w = "newTimelineModule [''timeline'']"
  let ?r2 = "initializeEnhancedTimeline allReturn ''timeline'' None True oneTimeline"
  have con: "consistent ?w"
    by (simp add: consistent_def newTimelineModule_def)
  have i1: "initializeEnhancedTimeline allReturn ''timeline'' None True ?w = (True, oneTimeline)"
    unfolding oneTimeline_eq
    by (simp add: initializeEnhancedTimeline_def newTimelineModule_def allReturn_def
        destroyExisting_def TimelineEnhancements_initialize_def new_Timeline_def tm_print_def Let_def)
  have f2: "fst ?r2 = True"
    unfolding oneTimeline_eq
    by (simp add: initializeEnhancedTimeline_def newTimelineModule_def allReturn_def
        destroyExisting_def TimelineEnhancements_initialize_def new_Timeline_def tm_print_def Let_def)
  then have i2: "?r2 = (True, snd ?r2)" by (metis prod.collapse)
  have reg: "timelineInstances (snd ?r2) = [(''timeline'', 1)]"
    unfolding oneTimeline_eq
    by (simp add: initializeEnhancedTimeline_def newTimelineModule_def allReturn_def
        destroyExisting_def TimelineEnhancements_initialize_def new_Timeline_def tm_print_def Let_def)
  have n: "tm_nextObject ?w = 0" "tm_nextObject oneTimeline = 1"
    by (simp_all add: oneTimeline_eq newTimelineModule_def)
  have g: "''graph'' \<in> set (gm_document (newGraphModule [''graph'']))"
    "liveGraphsOn (newGraphModule [''graph'']) ''graph'' = []"
    "gm_nextObject (newGraphModule [''graph'']) = 0"
    by (simp_all add: newGraphModule_def liveGraphsOn_def)
  from initialize_twice_one_live_timeline[of ?w allReturn "''timeline''" None True oneTimeline
      allReturn None True "snd ?r2" "newGraphModule [''graph'']" "''graph-1''"]
    initialize_twice_one_live_timeline[of ?w allReturn "''graph''" None True oneTimeline
      allReturn None True "snd ?r2" "newGraphModule [''graph'']" "''graph-1''"]
    con i1 i2 f2 reg n g
  show ?thesis by simp
qed

text \<open>
  C2 as stated fails for the graph registry: after two calls of \<^verbatim>\<open>initializeNetworkGraph\<close> on
  one container, two entries are bound to it and two graphs are alive on it.
\<close>

theorem initializeNetworkGraph_twice_two_live_graphs:
  "graphEntriesFor twoGraphs ''graph'' = [(''graph-1'', 0), (''graph-2'', 1)]
   \<and> liveGraphsOn twoGraphs ''graph'' = [0, 1]"
  by (simp add: twoGraphs_def initializeNetworkGraph_def new_NetworkGraph_def newGraphModule_def
      graphEntriesFor_def liveGraphsOn_def)

text \<open>
  C6 (as the code has it). For a container id that is not in the document,
  \<^verbatim>\<open>NetworkGraphInterop.initialize\<close> and \<^verbatim>\<open>initializeEnhancedTimeline\<close> return \<^verbatim>\<open>false\<close>, print an
  error and create nothing; \<^verbatim>\<open>initializeNetworkGraph\<close> prints the error and throws the
  constructor's exception on to its caller, registering nothing.
\<close>

theorem missing_container_results:
  "(containerId \<notin> set (ni_document s) \<longrightarrow>
      fst (NetworkGraphInterop_initialize create containerId dotNetRef s) = Inr False
      \<and> ni_console (snd (NetworkGraphInterop_initialize create containerId dotNetRef s))
          = ni_console s @ [(Err, ''Container element not found: '' @ containerId)]
      \<and> liveNetworks (snd (NetworkGraphInterop_initialize create containerId dotNetRef s))
          = liveNetworks s)
   \<and> (containerId \<notin> set (tm_document w) \<longrightarrow>
      fst (initializeEnhancedTimeline env containerId dotNetRef useEnhancements w) = False
      \<and> fst (last (tm_console (snd (initializeEnhancedTimeline env containerId dotNetRef useEnhancements w))))
          = Err
      \<and> timelineInstances (snd (initializeEnhancedTimeline env containerId dotNetRef useEnhancements w))
          = timelineInstances w
      \<and> liveTimelines (snd (initializeEnhancedTimeline env containerId dotNetRef useEnhancements w))
          = liveTimelines w)
   \<and> (containerId \<notin> set (gm_document m) \<longrightarrow>
      fst (initializeNetworkGraph graphId containerId m)
          = Inl (Error (''Container '' @ containerId @ '' not found''))
      \<and> gm_console (snd (initializeNetworkGraph graphId containerId m))
          = gm_console m @ [(Err, ''Error initializing NetworkGraph:'')]
      \<and> graphInstances (snd (initializeNetworkGraph graphId containerId m)) = graphInstances m
      \<and> liveGraphs (snd (initializeNetworkGraph graphId containerId m)) = liveGraphs m)"
proof (intro conjI impI)
  assume "containerId \<notin> set (ni_document s)"
  then show "fst (NetworkGraphInterop_initialize create containerId dotNetRef s) = Inr False"
    and "ni_console (snd (NetworkGraphInterop_initialize create containerId dotNetRef s))
          = ni_console s @ [(Err, ''Container element not found: '' @ containerId)]"
    and "liveNetworks (snd (NetworkGraphInterop_initialize create containerId dotNetRef s))
          = liveNetworks s"
    by (simp_all add: NetworkGraphInterop_initialize_def)
next
  assume c: "containerId \<notin> set (tm_document w)"
  define w0 where "w0 = (case dotNetRef of None \<Rightarrow> w | Some r \<Rightarrow> w\<lparr>dotNetReference := Some r\<rparr>)"
  have w0: "tm_document w0 = tm_document w" "timelineInstances w0 = timelineInstances w"
    "liveTimelines w0 = liveTimelines w"
    by (simp_all add: w0_def split: option.split)
  have res: "initializeEnhancedTimeline env containerId dotNetRef useEnhancements w
      = (False, tm_print Err (if visDefined w0 then ''Container '' @ containerId @ '' not found''
                              else ''vis.js library not loaded'') w0)"
    using c w0(1) by (simp add: initializeEnhancedTimeline_def w0_def[symmetric] Let_def)
  show "fst (initializeEnhancedTimeline env containerId dotNetRef useEnhancements w) = False"
    and "fst (last (tm_console (snd (initializeEnhancedTimeline env containerId dotNetRef useEnhancements w))))
          = Err"
    and "timelineInstances (snd (initializeEnhancedTimeline env containerId dotNetRef useEnhancements w))
          = timelineInstances w"
    and "liveTimelines (snd (initializeEnhancedTimeline env containerId dotNetRef useEnhancements w))
          = liveTimelines w"
    unfolding res using w0 by (simp_all add: tm_print_def)
next
  assume "containerId \<notin> set (gm_document m)"
  then show "fst (initializeNetworkGraph graphId containerId m)
          = Inl (Error (''Container '' @ containerId @ '' not found''))"
    and "gm_console (snd (initializeNetworkGraph graphId containerId m))
          = gm_console m @ [(Err, ''Error initializing NetworkGraph:'')]"
    and "graphInstances (snd (initializeNetworkGraph graphId containerId m)) = graphInstances m"
    and "liveGraphs (snd (initializeNetworkGraph graphId containerId m)) = liveGraphs m"
    by (simp_all add: initializeNetworkGraph_def new_NetworkGraph_def)
qed

theorem missing_container_results_witness:
  "''missing'' \<notin> set (ni_document (newNetworkInterop [''graph'']))
   \<and> fst (NetworkGraphInterop_initialize Returns ''missing'' None (newNetworkInterop [''graph''])) = Inr False
   \<and> ''missing'' \<notin> set (tm_document (newTimelineModule [''graph'']))
   \<and> fst (initializeEnhancedTimeline
        \<lparr>destroyOutcome = Returns, createOutcome = Returns, featuresOutcome = Returns,
         handlersOutcome = Returns\<rparr> ''missing'' None True (newTimelineModule [''graph''])) = False
   \<and> ''missing'' \<notin> set (gm_document (newGraphModule [''graph'']))
   \<and> fst (initializeNetworkGraph ''graph-1'' ''missing'' (newGraphModule [''graph'']))
       = Inl (Error ''Container missing not found'')"
proof -
  have a: "''missing'' \<notin> set (ni_document (newNetworkInterop [''graph'']))"
    by (simp add: newNetworkInterop_def)
  have b: "''missing'' \<notin> set (tm_document (newTimelineModule [''graph'']))"
    by (simp add: newTimelineModule_def)
  have c: "''missing'' \<notin> set (gm_document (newGraphModule [''graph'']))"
    by (simp add: newGraphModule_def)
  show ?thesis
    using a b c
      missing_container_results[of "''missing''" "newNetworkInterop [''graph'']" Returns None
        "newTimelineModule [''graph'']"
        "\<lparr>destroyOutcome = Returns, createOutcome = Returns, featuresOutcome = Returns,
          handlersOutcome = Returns\<rparr>" True "newGraphModule [''graph'']" "''graph-1''"]
    by simp
qed

text \<open>
  C6 as stated fails: the caller of \<^verbatim>\<open>initializeNetworkGraph\<close> gets an exception, not an
  error result.
\<close>

theorem initializeNetworkGraph_rethrows:
  "fst (initializeNetworkGraph ''graph-1'' ''missing'' (newGraphModule [''graph'']))
     = Inl (Error ''Container missing not found'')
   \<and> isl (fst (initializeNetworkGraph ''graph-1'' ''missing'' (newGraphModule [''graph''])))"
  by (simp add: initializeNetworkGraph_def new_NetworkGraph_def newGraphModule_def)

text \<open>
  C8 (as the code has it). \<^verbatim>\<open>destroyTimeline\<close> never throws; when the library's
  \<^verbatim>\<open>destroy\<close> returns, it reports success and a second call on the same id reports success
  again and changes nothing, as does any call on an id that is not registered.
  \<^verbatim>\<open>NetworkGraphInterop.destroy\<close> reports success for an initialised network and \<^verbatim>\<open>false\<close> when
  called again, changing nothing.
\<close>

theorem destroy_twice_results:
  "(destroyOutcome env = Returns \<longrightarrow>
      fst (destroyTimeline env containerId w) = True
      \<and> destroyTimeline env2 containerId (snd (destroyTimeline env containerId w))
          = (True, snd (destroyTimeline env containerId w)))
   \<and> (map_of (timelineInstances w) containerId = None \<longrightarrow>
      destroyTimeline env containerId w = (True, w))
   \<and> (network s \<noteq> None \<longrightarrow>
      fst (NetworkGraphInterop_destroy Returns s) = Inr True
      \<and> NetworkGraphInterop_destroy d2 (snd (NetworkGraphInterop_destroy Returns s))
          = (Inr False, snd (NetworkGraphInterop_destroy Returns s)))"
proof (intro conjI impI)
  assume ok: "destroyOutcome env = Returns"
  show "fst (destroyTimeline env containerId w) = True"
    using ok by (simp add: destroyTimeline_def split: option.split)
  have "map_of (timelineInstances (snd (destroyTimeline env containerId w))) containerId = None"
    using ok by (simp add: destroyTimeline_def tm_print_def map_of_delete_same split: option.split)
  then show "destroyTimeline env2 containerId (snd (destroyTimeline env containerId w))
          = (True, snd (destroyTimeline env containerId w))"
    by (simp add: destroyTimeline_def)
next
  assume "map_of (timelineInstances w) containerId = None"
  then show "destroyTimeline env containerId w = (True, w)"
    by (simp add: destroyTimeline_def)
next
  assume n: "network s \<noteq> None"
  then show "fst (NetworkGraphInterop_destroy Returns s) = Inr True"
    by (auto simp: NetworkGraphInterop_destroy_def)
  from n have "network (snd (NetworkGraphInterop_destroy Returns s)) = None"
    by (auto simp: NetworkGraphInterop_destroy_def)
  then show "NetworkGraphInterop_destroy d2 (snd (NetworkGraphInterop_destroy Returns s))
          = (Inr False, snd (NetworkGraphInterop_destroy Returns s))"
    by (simp add: NetworkGraphInterop_destroy_def)
qed

theorem destroy_twice_results_witness:
  "destroyOutcome allReturn = Returns
   \<and> fst (destroyTimeline allReturn ''timeline'' oneTimeline) = True
   \<and> fst (destroyTimeline allReturn ''timeline'' (snd (destroyTimeline allReturn ''timeline'' oneTimeline)))
       = True
   \<and> liveTimelines (snd (destroyTimeline allReturn ''timeline'' oneTimeline)) = []
   \<and> map_of (timelineInstances (newTimelineModule [''timeline''])) ''timeline'' = None
   \<and> fst (destroyTimeline allReturn ''timeline'' (newTimelineModule [''timeline''])) = True
   \<and> network oneNetwork = Some 2
   \<and> fst (NetworkGraphInterop_destroy Returns oneNetwork) = Inr True
   \<and> fst (NetworkGraphInterop_destroy Returns (snd (NetworkGraphInterop_destroy Returns oneNetwork)))
       = Inr False"
proof -
  have a: "destroyOutcome allReturn = Returns" by (simp add: allReturn_def)
  have b: "map_of (timelineInstances (newTimelineModule [''timeline''])) ''timeline'' = None"
    by (simp add: newTimelineModule_def)
  have c: "network oneNetwork = Some 2"
    by (simp add: oneNetwork_def NetworkGraphInterop_initialize_def newNetworkInterop_def Let_def)
  have d: "liveTimelines (snd (destroyTimeline allReturn ''timeline'' oneTimeline)) = []"
    by (simp add: oneTimeline_eq destroyTimeline_def allReturn_def tm_print_def newTimelineModule_def)
  from destroy_twice_results[of allReturn "''timeline''" oneTimeline allReturn oneNetwork Returns]
    destroy_twice_results[of allReturn "''timeline''" "newTimelineModule [''timeline'']" allReturn
      oneNetwork Returns]
    a b c d
  show ?thesis by simp
qed

text \<open>
  C8 as stated fails: the second \<^verbatim>\<open>NetworkGraphInterop.destroy\<close> in a row returns \<^verbatim>\<open>false\<close>.
\<close>

theorem NetworkGraphInterop_second_destroy_false:
  "fst (NetworkGraphInterop_destroy Returns oneNetwork) = Inr True
   \<and> fst (NetworkGraphInterop_destroy Returns (snd (NetworkGraphInterop_destroy Returns oneNetwork)))
       = Inr False"
  by (simp add: oneNetwork_def NetworkGraphInterop_initialize_def NetworkGraphInterop_destroy_def
      newNetworkInterop_def Let_def)

subsection \<open>Properties of burst detection\<close>

lemma countFollowing_takeWhile:
  "countFollowing w c xs = length (takeWhile (\<lambda>y. start y - c < w) xs)"
  by (induction xs) auto

lemma take_length_takeWhile: "take (length (takeWhile P xs)) xs = takeWhile P xs"
  by (induction xs) auto

lemma runAt_Cons_0: "runAt w (x # xs) 0 = x # takeWhile (\<lambda>y. start y - start x < w) xs"
  by (simp add: runAt_def)

lemma runAt_Cons_Suc: "runAt w (x # xs) (Suc i) = runAt w xs i"
  by (simp add: runAt_def)

lemma burstsFrom_anchored: "burstsFrom th w s = anchoredBursts th w s"
proof (induction s)
  case Nil
  show ?case by (simp add: anchoredBursts_def)
next
  case (Cons x xs)
  have idx: "[0..<length (x # xs)] = 0 # map Suc [0..<length xs]"
    by (simp add: upt_conv_Cons map_Suc_upt del: upt_Suc)
  have tl: "map (\<lambda>i. \<lparr>b_start = start ((x # xs) ! i), b_count = length (runAt w (x # xs) i),
               b_items = runAt w (x # xs) i\<rparr>)
       (filter (\<lambda>i. th \<le> length (runAt w (x # xs) i)) (map Suc [0..<length xs]))
     = anchoredBursts th w xs"
    by (simp add: anchoredBursts_def filter_map o_def runAt_Cons_Suc)
  have hd: "take (Suc (countFollowing w (start x) xs)) (x # xs) = runAt w (x # xs) 0"
    by (simp add: runAt_Cons_0 countFollowing_takeWhile take_length_takeWhile)
  have cnt: "Suc (countFollowing w (start x) xs) = length (runAt w (x # xs) 0)"
    by (simp add: runAt_Cons_0 countFollowing_takeWhile)
  have "anchoredBursts th w (x # xs) =
      (if th \<le> length (runAt w (x # xs) 0)
       then [\<lparr>b_start = start x, b_count = length (runAt w (x # xs) 0), b_items = runAt w (x # xs) 0\<rparr>]
       else []) @ anchoredBursts th w xs"
    unfolding anchoredBursts_def[of th w "x # xs"] idx using tl by simp
  then show ?case using Cons.IH hd cnt by (simp add: Let_def)
qed

text \<open>
  C3 (as the code has it). With the threshold of 5 events and the window of one hour that
  \<^verbatim>\<open>detectBursts\<close> fixes, five events at \<open>t = 0, 1, 2, 3, 4\<close> minutes give exactly one burst, of
  count 5, with all five events. In general the bursts are, for each position of the sorted
  items in turn, the run of the item there and the items after it that lie less than the
  window after that item (not after their predecessor), whenever the run has at least
  threshold many items; runs are not merged.
\<close>

theorem detectBursts_anchored_runs:
  "detectBursts fiveEvents = [\<lparr>b_start = 0, b_count = 5, b_items = fiveEvents\<rparr>]
   \<and> detectBurstsWith threshold timeWindow items
       = anchoredBursts threshold timeWindow (sort_key start items)
   \<and> detectBursts items = anchoredBursts 5 (60 * 60 * 1000) (sort_key start items)"
proof (intro conjI)
  show "detectBursts fiveEvents = [\<lparr>b_start = 0, b_count = 5, b_items = fiveEvents\<rparr>]"
    by (simp add: detectBursts_def detectBurstsWith_def fiveEvents_def minute_def)
  show "detectBurstsWith threshold timeWindow items
       = anchoredBursts threshold timeWindow (sort_key start items)"
    by (simp add: detectBurstsWith_def burstsFrom_anchored)
  show "detectBursts items = anchoredBursts 5 (60 * 60 * 1000) (sort_key start items)"
    by (simp add: detectBursts_def detectBurstsWith_def burstsFrom_anchored)
qed

text \<open>
  C3 as stated fails: with a window of 5 minutes and a threshold of 3 the five events give
  three bursts, of counts 5, 4 and 3; with the constants of the code, six events one minute
  apart give two bursts, the second a part of the first; and seven events 12 minutes apart,
  one run by consecutive pairs, give three bursts of count 5 and none of count 7.
\<close>

theorem detectBursts_reports_sub_runs:
  "map b_count (detectBurstsWith 3 (5 * minute) fiveEvents) = [5, 4, 3]
   \<and> map b_count (detectBursts sixEvents) = [6, 5]
   \<and> map b_start (detectBursts sixEvents) = [0, minute]
   \<and> map b_count (detectBursts chainEvents) = [5, 5, 5]"
  by (simp add: detectBursts_def detectBurstsWith_def fiveEvents_def sixEvents_def chainEvents_def
      minute_def)

subsection \<open>Properties of addMarkers\<close>

lemma isValid_iff:
  "isValid l \<longleftrightarrow>
     (\<exists>loc. l = Some loc \<and> inRange (- 90) 90 (latitude loc) \<and> inRange (- 180) 180 (longitude loc))"
proof (cases l)
  case None
  then show ?thesis by (simp add: isValid_def)
next
  case (Some loc)
  show ?thesis
  proof (cases "latitude loc")
    case (Num lat)
    note lat = this
    show ?thesis
    proof (cases "longitude loc")
      case (Num lng)
      show ?thesis using Some lat Num
        by (cases lat; cases lng) (auto simp: isValid_def inRange_def)
    qed (use Some lat in \<open>auto simp: isValid_def inRange_def\<close>)
  qed (use Some in \<open>auto simp: isValid_def inRange_def\<close>)
qed

lemma createMarker_usable:
  "usableRisk (riskScore loc) \<Longrightarrow> \<exists>m. createMarker loc = Inr m \<and> locationData m = loc"
  by (cases "riskScore loc") (auto simp: createMarker_def)

lemma addEach_usable:
  "\<forall>loc\<in>set locs. usableRisk (riskScore loc) \<Longrightarrow>
     fst (addEach locs gm) = Inr ()
     \<and> map locationData (markers (snd (addEach locs gm))) = map locationData (markers gm) @ locs
     \<and> map locationData (mapLayer (snd (addEach locs gm)))
         = map locationData (mapLayer gm) @ (if hasClusters gm then [] else locs)
     \<and> map locationData (clusterLayer (snd (addEach locs gm)))
         = map locationData (clusterLayer gm) @ (if hasClusters gm then locs else [])
     \<and> hasClusters (snd (addEach locs gm)) = hasClusters gm
     \<and> fittedBounds (snd (addEach locs gm)) = fittedBounds gm"
proof (induction locs arbitrary: gm)
  case Nil
  show ?case by simp
next
  case (Cons loc locs)
  from Cons.prems obtain m where m: "createMarker loc = Inr m" "locationData m = loc"
    using createMarker_usable[of loc] by auto
  have rest: "\<forall>loc\<in>set locs. usableRisk (riskScore loc)" using Cons.prems by simp
  show ?case
    using Cons.IH[OF rest] m by simp
qed

text \<open>
  When every entry with coordinates in range has a risk score that is missing or a number,
  \<^verbatim>\<open>addMarkers\<close> returns, and markers, layer and fitted bounds are those of exactly the
  entries that pass the filter, in order; each other entry gives one warning.
\<close>

lemma addMarkers_usable:
  assumes "\<forall>l\<in>set locations. isValid l \<longrightarrow> usableRisk (riskScore (the l))"
  shows "fst (addMarkers locations gm) = Inr ()"
    and "map locationData (markers (fst (snd (addMarkers locations gm))))
           = map locationData (markers gm) @ map the (filter isValid locations)"
    and "map locationData (mapLayer (fst (snd (addMarkers locations gm))))
           = map locationData (mapLayer gm)
             @ (if hasClusters gm then [] else map the (filter isValid locations))"
    and "map locationData (clusterLayer (fst (snd (addMarkers locations gm))))
           = map locationData (clusterLayer gm)
             @ (if hasClusters gm then map the (filter isValid locations) else [])"
    and "filter isValid locations \<noteq> [] \<Longrightarrow>
           fittedBounds (fst (snd (addMarkers locations gm)))
             = Some (map (\<lambda>loc. (latitude loc, longitude loc)) (map the (filter isValid locations)))"
    and "filter isValid locations = [] \<Longrightarrow> fst (snd (addMarkers locations gm)) = gm"
    and "length (filter (\<lambda>m. m = (Warn, ''Invalid marker location:''))
                  (snd (snd (addMarkers locations gm))))
           = length (filter (\<lambda>l. \<not> isValid l) locations)"
proof -
  let ?v = "map the (filter isValid locations)"
  have us: "\<forall>loc\<in>set ?v. usableRisk (riskScore loc)" using assms by auto
  note e = addEach_usable[OF us, of gm]
  obtain gm1 where gm1: "addEach ?v gm = (Inr (), gm1)"
    using e by (cases "addEach ?v gm") auto
  have res: "addMarkers locations gm =
      (if ?v = [] then (Inr (), gm,
          map (\<lambda>l. (Warn, ''Invalid marker location:'')) (filter (\<lambda>l. \<not> isValid l) locations)
          @ [(Warn, ''No valid locations to add markers'')])
       else (Inr (), gm1\<lparr>fittedBounds := Some (map (\<lambda>loc. (latitude loc, longitude loc)) ?v)\<rparr>,
          map (\<lambda>l. (Warn, ''Invalid marker location:'')) (filter (\<lambda>l. \<not> isValid l) locations)))"
    using gm1 by (simp add: addMarkers_def Let_def)
  have cnt: "length (filter (\<lambda>m. m = (Warn, ''Invalid marker location:''))
          (map (\<lambda>l. (Warn, ''Invalid marker location:'')) xs)) = length xs"
    for xs :: "location option list"
    by (induction xs) auto
  show "fst (addMarkers locations gm) = Inr ()" by (simp add: res)
  show "map locationData (markers (fst (snd (addMarkers locations gm))))
           = map locationData (markers gm) @ ?v"
    using e gm1 by (simp add: res)
  show "map locationData (mapLayer (fst (snd (addMarkers locations gm))))
           = map locationData (mapLayer gm) @ (if hasClusters gm then [] else ?v)"
    using e gm1 by (simp add: res)
  show "map locationData (clusterLayer (fst (snd (addMarkers locations gm))))
           = map locationData (clusterLayer gm) @ (if hasClusters gm then ?v else [])"
    using e gm1 by (simp add: res)
  show "fittedBounds (fst (snd (addMarkers locations gm))) = Some (map (\<lambda>loc. (latitude loc, longitude loc)) ?v)"
    if "filter isValid locations \<noteq> []"
    using that by (simp add: res)
  show "fst (snd (addMarkers locations gm)) = gm" if "filter isValid locations = []"
    using that by (simp add: res)
  show "length (filter (\<lambda>m. m = (Warn, ''Invalid marker location:''))
                  (snd (snd (addMarkers locations gm))))
           = length (filter (\<lambda>l. \<not> isValid l) locations)"
    by (simp add: res cnt)
qed

text \<open>
  C7. The filter of \<^verbatim>\<open>addMarkers\<close> is the one claimed, and an entry with latitude 91 is
  left out with a warning. But an entry that passes the filter is not always rendered:
  Ndola has coordinates in range and the risk score \<^verbatim>\<open>null\<close>, and \<^verbatim>\<open>createPopupContent\<close>,
  which guards \<^verbatim>\<open>toFixed\<close> against \<^verbatim>\<open>undefined\<close> only, throws on it. The call then fails
  with a \<^verbatim>\<open>TypeError\<close>: with Ndola first nothing is rendered, although Lusaka is valid too;
  with Ndola second Lusaka is on the map, Kitwe after it never gets there, and the bounds
  are not fitted.
\<close>

theorem addMarkers_null_riskScore_throws:
  "isValid (Some ndola) \<and> isValid (Some lusaka) \<and> isValid (Some kitwe)
   \<and> \<not> isValid (Some tooFarNorth)
   \<and> addMarkers [Some ndola, Some lusaka] emptyMap
       = (Inl (TypeError ''Cannot read properties of null (reading toFixed)''), emptyMap, [])
   \<and> addMarkers [Some tooFarNorth, Some lusaka, Some ndola, Some kitwe] emptyMap
       = (Inl (TypeError ''Cannot read properties of null (reading toFixed)''),
          emptyMap\<lparr>markers := [\<lparr>locationData = lusaka, iconColor = ''#e67e22''\<rparr>],
                   mapLayer := [\<lparr>locationData = lusaka, iconColor = ''#e67e22''\<rparr>]\<rparr>,
          [(Warn, ''Invalid marker location:'')])
   \<and> addMarkers [Some tooFarNorth, Some lusaka, Some kitwe] emptyMap
       = (Inr (),
          emptyMap\<lparr>markers := [\<lparr>locationData = lusaka, iconColor = ''#e67e22''\<rparr>,
                               \<lparr>locationData = kitwe, iconColor = ''#3498db''\<rparr>],
                   mapLayer := [\<lparr>locationData = lusaka, iconColor = ''#e67e22''\<rparr>,
                                \<lparr>locationData = kitwe, iconColor = ''#3498db''\<rparr>],
                   fittedBounds := Some [(Num (Finite (- 15.4)), Num (Finite 28.3)),
                                         (Num (Finite (- 12.8)), Num (Finite 28.2))]\<rparr>,
          [(Warn, ''Invalid marker location:'')])"
proof -
  have v: "isValid (Some ndola)" "isValid (Some lusaka)" "isValid (Some kitwe)"
    "\<not> isValid (Some tooFarNorth)"
    by (simp_all add: isValid_def ndola_def lusaka_def kitwe_def tooFarNorth_def)
  have c: "createMarker ndola = Inl (TypeError ''Cannot read properties of null (reading toFixed)'')"
    "createMarker lusaka = Inr \<lparr>locationData = lusaka, iconColor = ''#e67e22''\<rparr>"
    "createMarker kitwe = Inr \<lparr>locationData = kitwe, iconColor = ''#3498db''\<rparr>"
    by (simp_all add: createMarker_def getRiskColor_def ndola_def lusaka_def kitwe_def)
  have l: "latitude lusaka = Num (Finite (- 15.4))" "longitude lusaka = Num (Finite 28.3)"
    "latitude kitwe = Num (Finite (- 12.8))" "longitude kitwe = Num (Finite 28.2)"
    by (simp_all add: lusaka_def kitwe_def)
  show ?thesis
    using v by (simp add: addMarkers_def Let_def c l emptyMap_def)
qed

subsection \<open>Properties of the playback\<close>

text \<open>
  While the flag \<^verbatim>\<open>isPlaying\<close> is set, \<^verbatim>\<open>play\<close> changes nothing, in TimelineViz and (up to
  a line in the console) in the shipment playback; and the shipment playback never has more
  than one active timer.
\<close>

lemma TimelineViz_play_while_playing: "isPlaying v \<Longrightarrow> TimelineViz_play v = v"
  by (simp add: TimelineViz_play_def)

lemma playShipmentTimeline_while_playing:
  assumes "pb_isPlaying (shipmentTimelinePlayback w)"
  shows "\<exists>msg lvl. snd (playShipmentTimeline items w) = tm_print lvl msg w"
  using assms
  by (auto simp: playShipmentTimeline_def split: option.splits sum.splits)

lemma playbackInv_step: "playbackInv w \<Longrightarrow> playbackInv (shipmentStep e w)"
proof (cases e)
  case (Play its)
  assume "playbackInv w"
  then show ?thesis using Play
    by (auto simp: playbackInv_def playShipmentTimeline_def tm_print_def Let_def
        split: option.splits if_splits)
next
  case Pause
  assume "playbackInv w"
  then show ?thesis using Pause
    by (auto simp: playbackInv_def pauseShipmentTimeline_def clearShipmentInterval_def tm_print_def Let_def
        split: option.splits if_splits)
next
  case Stop
  assume "playbackInv w"
  then show ?thesis using Stop
    by (auto simp: playbackInv_def stopShipmentTimeline_def clearShipmentInterval_def tm_print_def Let_def
        split: option.splits if_splits)
next
  case (Tick its)
  assume "playbackInv w"
  then show ?thesis using Tick
    by (auto simp: playbackInv_def shipmentTick_def pauseShipmentTimeline_def clearShipmentInterval_def
        tm_print_def Let_def split: option.splits if_splits)
next
  case (InitShipment env c)
  assume "playbackInv w"
  then show ?thesis using InitShipment
    by (auto simp: playbackInv_def initializeShipmentTimeline_def destroyExisting_def new_Timeline_def
        tm_print_def Let_def split: option.splits if_splits lib_outcome.splits)
qed

lemma shipment_at_most_one_timer:
  "playbackInv w \<Longrightarrow> length (tm_intervals (fold shipmentStep es w)) \<le> 1"
proof (induction es arbitrary: w)
  case Nil
  then show ?case by (auto simp: playbackInv_def split: if_splits)
next
  case (Cons e es)
  then show ?case using playbackInv_step by simp
qed

text \<open>
  C9. In TimelineViz the flag does not follow the timer: \<^verbatim>\<open>render()\<close>, which every
  \<^verbatim>\<open>loadData\<close>, zoom and brush runs, ends with \<^verbatim>\<open>addPlaybackControls()\<close> and so puts
  \<^verbatim>\<open>isPlaying\<close> back to \<^verbatim>\<open>false\<close> while the timer of a running playback stays active. A
  \<^verbatim>\<open>play()\<close> after that starts a second timer: both are active, the object remembers only
  the second, and \<^verbatim>\<open>stop()\<close> leaves the first one running.
\<close>

theorem TimelineViz_second_timer_after_render:
  "activeTimers (TimelineViz_play (TimelineViz_loadData [10, 20, 30]
      (TimelineViz_play (TimelineViz_loadData [10, 20, 30] newTimelineViz)))) = [1, 2]
   \<and> playbackTimer (TimelineViz_play (TimelineViz_loadData [10, 20, 30]
      (TimelineViz_play (TimelineViz_loadData [10, 20, 30] newTimelineViz)))) = Some 2
   \<and> activeTimers (TimelineViz_stop (TimelineViz_play (TimelineViz_loadData [10, 20, 30]
      (TimelineViz_play (TimelineViz_loadData [10, 20, 30] newTimelineViz))))) = [1]"
  by (simp add: TimelineViz_play_def TimelineViz_loadData_def TimelineViz_render_def
      TimelineViz_stop_def TimelineViz_pause_def clearInterval_def
      addPlaybackControls_def newTimelineViz_def setInterval_def Let_def)

text \<open>
  C10. In TimelineViz, a call of \<^verbatim>\<open>play\<close> that starts playback (the object is not playing)
  sets the playback position to index 0 and starts a timer; \<^verbatim>\<open>pause\<close> leaves the position
  as it is; so \<^verbatim>\<open>pause\<close> followed by \<^verbatim>\<open>play\<close> starts again from the first event, whatever
  the position was.
\<close>

theorem play_restarts_from_first_event:
  "(\<not> isPlaying v \<longrightarrow>
      playbackIndex (TimelineViz_play v) = 0 \<and> isPlaying (TimelineViz_play v) \<and>
      playbackTimer (TimelineViz_play v) = Some (nextTimerId v) \<and>
      activeTimers (TimelineViz_play v) = activeTimers v @ [nextTimerId v])
   \<and> playbackIndex (TimelineViz_pause v) = playbackIndex v
   \<and> \<not> isPlaying (TimelineViz_pause v)
   \<and> playbackIndex (TimelineViz_play (TimelineViz_pause v)) = 0"
  by (simp add: TimelineViz_play_def TimelineViz_pause_def setInterval_def clearInterval_def Let_def
      split: option.split)

theorem play_restarts_from_first_event_witness:
  "\<not> isPlaying (TimelineViz_pause (TimelineViz_tick (TimelineViz_tick
        (TimelineViz_play (TimelineViz_loadData [10, 20, 30] newTimelineViz)))))
   \<and> playbackIndex (TimelineViz_tick (TimelineViz_tick
        (TimelineViz_play (TimelineViz_loadData [10, 20, 30] newTimelineViz)))) = 2
   \<and> playbackIndex (TimelineViz_pause (TimelineViz_tick (TimelineViz_tick
        (TimelineViz_play (TimelineViz_loadData [10, 20, 30] newTimelineViz))))) = 2
   \<and> playbackIndex (TimelineViz_play (TimelineViz_pause (TimelineViz_tick (TimelineViz_tick
        (TimelineViz_play (TimelineViz_loadData [10, 20, 30] newTimelineViz)))))) = 0"
  using play_restarts_from_first_event
    [of "TimelineViz_pause (TimelineViz_tick (TimelineViz_tick
        (TimelineViz_play (TimelineViz_loadData [10, 20, 30] newTimelineViz))))"]
    play_restarts_from_first_event
    [of "TimelineViz_tick (TimelineViz_tick
        (TimelineViz_play (TimelineViz_loadData [10, 20, 30] newTimelineViz)))"]
  by (simp add: TimelineViz_play_def TimelineViz_pause_def TimelineViz_tick_def
      TimelineViz_loadData_def TimelineViz_render_def addPlaybackControls_def
      newTimelineViz_def setInterval_def clearInterval_def Let_def)

end
